theory Spec2Isabelle
  imports Complex_Main "HOL-Library.Char_ord" "HOL-Library.List_Lexorder" "HOL-Library.Multiset"
begin

section \<open>The import and merge engine of fcc-physics-events\<close>

text \<open>
  A shallow embedding of \<^verbatim>\<open>backend/app/utils/uuid_utils.py\<close>,
  \<^verbatim>\<open>backend/app/storage/database_modules/data_import.py\<close> and
  \<^verbatim>\<open>backend/app/storage/json_data_parser.py\<close>.

  Python strings are byte strings here (\<^typ>\<open>string\<close>, the UTF-8 encoding of the text):
  the lexicographic order of \<^theory_text>\<open>List_Lexorder\<close> over \<^theory_text>\<open>Char_ord\<close> on the
  encodings is Python's order on the texts, which compares code points. A Python \<open>dict\<close>
  is an association list in iteration order, with distinct keys. An exception is a value
  \<open>Inl e\<close> of a sum type.
\<close>

subsection \<open>Python values and exceptions\<close>

text \<open>
  The exceptions the code raises or meets: Python's own, \<open>json.JSONDecodeError\<close>, the
  validation error of the data models, and the errors of the database driver, of which
  the code tells \<open>asyncpg.UniqueViolationError\<close> from the rest.
\<close>

datatype py_error =
    KeyError string
  | ValueError string
  | RuntimeError string
  | JSONDecodeError
  | ValidationError string
  | UniqueViolationError
  | PostgresError string

text \<open>\<open>str(i)\<close> of a Python integer: its decimal digits, after a minus sign when negative.\<close>

definition digit_char :: "nat \<Rightarrow> char" where
  "digit_char d = ''0123456789'' ! (d mod 10)"

fun str_nat :: "nat \<Rightarrow> string" where
  "str_nat n = (if n < 10 then [digit_char n] else str_nat (n div 10) @ [digit_char (n mod 10)])"

declare str_nat.simps [simp del]

definition str_int :: "int \<Rightarrow> string" where
  "str_int i = (if i < 0 then CHR ''-'' # str_nat (nat (- i)) else str_nat (nat i))"

text \<open>\<open>sep.join(parts)\<close>.\<close>

fun join_str :: "string \<Rightarrow> string list \<Rightarrow> string" where
  "join_str sep [] = []"
| "join_str sep [x] = x"
| "join_str sep (x # y # ys) = x @ sep @ join_str sep (y # ys)"

subsection \<open>uuid\_utils.py\<close>

text \<open>
  The keyword arguments \<open>**foreign_key_ids\<close>: a dictionary from key names to an integer
  or None. \<open>d[key]\<close> raises KeyError on a missing key.
\<close>

type_synonym fk_dict = "(string \<times> int option) list"

definition dict_keys :: "('k \<times> 'v) list \<Rightarrow> 'k list" where
  "dict_keys d = map fst d"

definition dict_getitem :: "(string \<times> 'v) list \<Rightarrow> string \<Rightarrow> py_error + 'v" where
  "dict_getitem d k = (case map_of d k of None \<Rightarrow> Inl (KeyError k) | Some v \<Rightarrow> Inr v)"

text \<open>The loop of \<open>generate_dataset_uuid\<close> over the sorted keys (lines 49 to 53).\<close>

fun foreign_key_parts :: "fk_dict \<Rightarrow> string list \<Rightarrow> py_error + string list" where
  "foreign_key_parts d [] = Inr []"
| "foreign_key_parts d (key # keys) =
     (case dict_getitem d key of
        Inl e \<Rightarrow> Inl e
      | Inr v \<Rightarrow>
          (let value_str = (case v of Some i \<Rightarrow> str_int i | None \<Rightarrow> ''0'')
           in case foreign_key_parts d keys of
                Inl e \<Rightarrow> Inl e
              | Inr parts \<Rightarrow> Inr (value_str # parts)))"

text \<open>
  \<open>generate_dataset_uuid\<close> (lines 24 to 63). The library call
  \<open>str(uuid.uuid5(ENTITY_UUID_NAMESPACE, uuid_name))\<close> is the parameter \<open>uuid5_ns\<close>: the
  namespace is fixed when the module is loaded, from \<open>uuid.NAMESPACE_DNS\<close> and the
  configured version string, so the call is a function of \<open>uuid_name\<close> alone.
\<close>

definition generate_dataset_uuid :: "(string \<Rightarrow> 'u) \<Rightarrow> string \<Rightarrow> fk_dict \<Rightarrow> py_error + 'u" where
  "generate_dataset_uuid uuid5_ns dataset_name foreign_key_ids =
     (let sorted_keys = sort (dict_keys foreign_key_ids)
      in case foreign_key_parts foreign_key_ids sorted_keys of
           Inl e \<Rightarrow> Inl e
         | Inr parts \<Rightarrow>
             (let foreign_keys_str = join_str '','' parts;
                  uuid_name = dataset_name @ '','' @ foreign_keys_str
              in Inr (uuid5_ns uuid_name)))"

text \<open>
  The canonical string in the words of the specification: sort the entries by key name,
  render each value, join with commas, prefix the dataset name and a comma.
\<close>

definition render_fk :: "int option \<Rightarrow> string" where
  "render_fk v = (case v of None \<Rightarrow> ''0'' | Some i \<Rightarrow> str_int i)"

definition canonical_string :: "string \<Rightarrow> fk_dict \<Rightarrow> string" where
  "canonical_string name fks =
     name @ '','' @ join_str '','' (map (\<lambda>e. render_fk (snd e)) (sort_key fst fks))"

subsection \<open>Metadata values\<close>

text \<open>
  A metadata value is a JSON value, as \<open>json.loads\<close> and the validated models give it.
  A float is the rational it denotes (the non-finite floats are left out: they are true
  in a condition and equal to none of the empty string, None and the empty list, as every
  other non-zero float). \<open>py_truthy\<close> is the truth value of a value in a condition.
\<close>

datatype json =
    JNull
  | JBool bool
  | JInt int
  | JFloat rat
  | JStr string
  | JList "json list"
  | JDict "(string \<times> json) list"

type_synonym metadata = "(string \<times> json) list"

fun py_truthy :: "json \<Rightarrow> bool" where
  "py_truthy JNull = False"
| "py_truthy (JBool b) = b"
| "py_truthy (JInt i) = (i \<noteq> 0)"
| "py_truthy (JFloat r) = (r \<noteq> 0)"
| "py_truthy (JStr s) = (s \<noteq> [])"
| "py_truthy (JList xs) = (xs \<noteq> [])"
| "py_truthy (JDict d) = (d \<noteq> [])"

text \<open>\<open>d[k] = v\<close> keeps the position of an existing key and appends a new one; \<open>d.get(k, dflt)\<close>.\<close>

fun dict_setitem :: "('k \<times> 'v) list \<Rightarrow> 'k \<Rightarrow> 'v \<Rightarrow> ('k \<times> 'v) list" where
  "dict_setitem [] k v = [(k, v)]"
| "dict_setitem ((k', v') # d) k v =
     (if k' = k then (k, v) # d else (k', v') # dict_setitem d k v)"

definition dict_get :: "('k \<times> 'v) list \<Rightarrow> 'k \<Rightarrow> 'v \<Rightarrow> 'v" where
  "dict_get d k dflt = (case map_of d k of None \<Rightarrow> dflt | Some v \<Rightarrow> v)"

definition startswith :: "string \<Rightarrow> string \<Rightarrow> bool" where
  "startswith s p = (take (length p) s = p)"

definition endswith :: "string \<Rightarrow> string \<Rightarrow> bool" where
  "endswith s p = (length p \<le> length s \<and> drop (length s - length p) s = p)"

subsection \<open>data\_import.py: the metadata merge policy\<close>

text \<open>\<open>_filter_empty_metadata_values\<close> (lines 556 to 558).\<close>

definition filter_empty_metadata_values :: "metadata \<Rightarrow> metadata" where
  "filter_empty_metadata_values metadata =
     filter (\<lambda>(k, v). v \<noteq> JStr [] \<and> v \<noteq> JNull \<and> v \<noteq> JList []) metadata"

text \<open>
  \<open>_merge_metadata_respecting_locks\<close> (lines 561 to 582): the loop over
  \<open>new_metadata.items()\<close>, started from a copy of the existing metadata. The lock is read
  from the existing metadata, not from the dictionary being built.
\<close>

fun merge_loop :: "metadata \<Rightarrow> metadata \<Rightarrow> metadata \<Rightarrow> metadata" where
  "merge_loop existing_metadata merged_metadata [] = merged_metadata"
| "merge_loop existing_metadata merged_metadata ((key, val) # items) =
     (if startswith key ''__'' \<and> endswith key ''__lock__''
      then merge_loop existing_metadata (dict_setitem merged_metadata key val) items
      else
        (let lock_field_name = ''__'' @ key @ ''__lock__'';
             is_locked = dict_get existing_metadata lock_field_name (JBool False)
         in if \<not> py_truthy is_locked
            then merge_loop existing_metadata (dict_setitem merged_metadata key val) items
            else merge_loop existing_metadata merged_metadata items))"

definition merge_metadata_respecting_locks :: "metadata \<Rightarrow> metadata \<Rightarrow> metadata" where
  "merge_metadata_respecting_locks existing_metadata new_metadata =
     merge_loop existing_metadata existing_metadata new_metadata"

text \<open>
  The metadata part of \<open>_merge_metadata_with_locked_fields\<close> (lines 526 to 542). The
  result of \<open>conn.fetchval\<close> is None (no row with this identifier, or a NULL column), a
  \<open>str\<close> holding the JSON text of a dictionary (\<open>MetadataText d\<close>, which \<open>json.loads\<close>
  turns into \<open>d\<close>), or a dictionary when the connection decodes the column. A JSON text
  is never the empty string, so it is true in the condition of line 532; a dictionary is
  true when it is not empty.
\<close>

datatype fetched_metadata = NoMetadata | MetadataText metadata | MetadataDict metadata

fun fetched_truthy :: "fetched_metadata \<Rightarrow> bool" where
  "fetched_truthy NoMetadata = False"
| "fetched_truthy (MetadataText d) = True"
| "fetched_truthy (MetadataDict d) = (d \<noteq> [])"

fun parse_existing_metadata :: "fetched_metadata \<Rightarrow> metadata" where
  "parse_existing_metadata (MetadataText d) = d"
| "parse_existing_metadata (MetadataDict d) = d"
| "parse_existing_metadata NoMetadata = []"

definition merged_entity_metadata :: "fetched_metadata \<Rightarrow> metadata \<Rightarrow> metadata" where
  "merged_entity_metadata existing_metadata_result new_metadata =
     (if fetched_truthy existing_metadata_result
      then (let existing_metadata = parse_existing_metadata existing_metadata_result;
                merged_metadata = merge_metadata_respecting_locks existing_metadata new_metadata
            in filter_empty_metadata_values merged_metadata)
      else filter_empty_metadata_values new_metadata)"

text \<open>
  The merge policy in the words of the specification: a key of the new metadata is applied
  when it is a lock-control key, or when the existing metadata holds no true value under
  its control key; any other key keeps the existing value; and a key whose value is an
  empty string, null or an empty list is stripped.
\<close>

definition is_lock_control_key :: "string \<Rightarrow> bool" where
  "is_lock_control_key k = (startswith k ''__'' \<and> endswith k ''__lock__'')"

definition control_key :: "string \<Rightarrow> string" where
  "control_key k = ''__'' @ k @ ''__lock__''"

definition holds_true :: "metadata \<Rightarrow> string \<Rightarrow> bool" where
  "holds_true d k = (case map_of d k of None \<Rightarrow> False | Some v \<Rightarrow> py_truthy v)"

definition is_empty_value :: "json \<Rightarrow> bool" where
  "is_empty_value v = (v = JStr [] \<or> v = JNull \<or> v = JList [])"

definition strip_empty :: "json option \<Rightarrow> json option" where
  "strip_empty r = (case r of None \<Rightarrow> None | Some v \<Rightarrow> if is_empty_value v then None else Some v)"

definition merged_value :: "metadata \<Rightarrow> metadata \<Rightarrow> string \<Rightarrow> json option" where
  "merged_value existing new k =
     (if k \<in> set (map fst new) \<and> (is_lock_control_key k \<or> \<not> holds_true existing (control_key k))
      then map_of new k else map_of existing k)"

subsection \<open>Strings\<close>

text \<open>
  \<open>str.strip()\<close>, \<open>str.rstrip(chars)\<close>, \<open>sub in s\<close> and lower-casing, on ASCII text: the
  white space of \<open>strip\<close> is Python's for code points below 128, and only the letters A
  to Z change case.
\<close>

definition is_space :: "char \<Rightarrow> bool" where
  "is_space c = (of_char c \<in> {9, 10, 11, 12, 13, 28, 29, 30, 31, 32 :: nat})"

definition lstrip :: "string \<Rightarrow> string" where
  "lstrip s = dropWhile is_space s"

definition strip :: "string \<Rightarrow> string" where
  "strip s = rev (dropWhile is_space (rev (dropWhile is_space s)))"

definition rstrip_chars :: "string \<Rightarrow> char \<Rightarrow> string" where
  "rstrip_chars s c = rev (dropWhile (\<lambda>x. x = c) (rev s))"

fun str_contains :: "string \<Rightarrow> string \<Rightarrow> bool" where
  "str_contains [] p = (p = [])"
| "str_contains (c # s) p = (startswith (c # s) p \<or> str_contains s p)"

definition lower_char :: "char \<Rightarrow> char" where
  "lower_char c = (let n = (of_char c :: nat) in if 65 \<le> n \<and> n \<le> 90 then char_of (n + 32) else c)"

definition lower :: "string \<Rightarrow> string" where
  "lower s = map lower_char s"

text \<open>
  The operator \<open>ILIKE\<close> of the lookup query (line 695), with the name as its pattern:
  \<open>%\<close> stands for any sequence of characters, \<open>_\<close> for any single character, a backslash
  takes the next character literally, and a pattern that ends in a lone backslash is an
  error of the statement, met when the match reaches it. Both sides are compared in lower
  case.
\<close>

datatype like_result = Match | NoMatch | PatternError

fun like :: "string \<Rightarrow> string \<Rightarrow> like_result" where
  "like [] [] = Match"
| "like [] (t # ts) = NoMatch"
| "like (p # ps) ts =
     (if p = CHR 0x5C then
        (case ps of
           [] \<Rightarrow> PatternError
         | q # qs \<Rightarrow> (case ts of [] \<Rightarrow> NoMatch | t # ts' \<Rightarrow> if q = t then like qs ts' else NoMatch))
      else if p = CHR ''%'' then
        (case like ps ts of
           Match \<Rightarrow> Match
         | PatternError \<Rightarrow> PatternError
         | NoMatch \<Rightarrow> (case ts of [] \<Rightarrow> NoMatch | t # ts' \<Rightarrow> like (p # ps) ts'))
      else if p = CHR ''_'' then
        (case ts of [] \<Rightarrow> NoMatch | t # ts' \<Rightarrow> like ps ts')
      else
        (case ts of [] \<Rightarrow> NoMatch | t # ts' \<Rightarrow> if p = t then like ps ts' else NoMatch))"

definition ilike :: "string \<Rightarrow> string \<Rightarrow> like_result" where
  "ilike text pattern = like (lower pattern) (lower text)"

subsection \<open>Records, tables and the connection\<close>

text \<open>The level of a \<open>logger\<close> call; the message is left out.\<close>

datatype log_level = INFO | WARNING | ERROR

text \<open>
  \<open>FccDataset\<close> of json\_data\_parser.py (lines 74 to 98), after validation; the fields
  \<open>size\<close> and \<open>comment\<close> carry a suffix, their names being taken.
\<close>

record dataset =
  process_name :: "string option"
  n_events :: "int option"
  path :: "string option"
  size_field :: "int option"
  description :: "string option"
  comment_field :: "string option"
  status :: "string option"
  accelerator :: "string option"
  stage :: "string option"
  campaign :: "string option"
  detector :: "string option"
  file_type :: "string option"
  raw_metadata :: metadata

text \<open>\<open>FccDataset.get_all_metadata\<close> (lines 194 to 219).\<close>

definition get_all_metadata :: "dataset \<Rightarrow> metadata" where
  "get_all_metadata self =
     (let m0 = [];
          m1 = (case n_events self of Some n \<Rightarrow> dict_setitem m0 ''n-events'' (JInt n) | None \<Rightarrow> m0);
          m2 = (case path self of Some p \<Rightarrow> dict_setitem m1 ''path'' (JStr p) | None \<Rightarrow> m1);
          m3 = (case size_field self of Some n \<Rightarrow> dict_setitem m2 ''size'' (JInt n) | None \<Rightarrow> m2);
          m4 = (case description self of Some d \<Rightarrow> dict_setitem m3 ''description'' (JStr d) | None \<Rightarrow> m3);
          m5 = (case comment_field self of Some c \<Rightarrow> dict_setitem m4 ''comment'' (JStr c) | None \<Rightarrow> m4);
          m6 = (case status self of Some c \<Rightarrow> dict_setitem m5 ''status'' (JStr c) | None \<Rightarrow> m5)
      in fold (\<lambda>(k, v) m. dict_setitem m k v) (raw_metadata self) m6)"

text \<open>
  \<open>hasattr\<close> and \<open>getattr\<close> on a dataset, for the names of its string fields: the outer
  None is \<open>hasattr\<close> being false. The integer fields, \<open>raw_metadata\<close> and the attributes
  every model object has are outside this function. \<open>entity_name_of\<close> is the block every
  reader of a reference name repeats (lines 196 to 200, 294 to 298, 432 to 436).
\<close>

definition getattr :: "dataset \<Rightarrow> string \<Rightarrow> string option option" where
  "getattr d field_name =
     (if field_name = ''process_name'' then Some (process_name d)
      else if field_name = ''path'' then Some (path d)
      else if field_name = ''description'' then Some (description d)
      else if field_name = ''comment'' then Some (comment_field d)
      else if field_name = ''status'' then Some (status d)
      else if field_name = ''accelerator'' then Some (accelerator d)
      else if field_name = ''stage'' then Some (stage d)
      else if field_name = ''campaign'' then Some (campaign d)
      else if field_name = ''detector'' then Some (detector d)
      else if field_name = ''file_type'' then Some (file_type d)
      else None)"

definition entity_name_of :: "dataset \<Rightarrow> string \<Rightarrow> string option" where
  "entity_name_of dataset_data field_name =
     (case getattr dataset_data field_name of
        None \<Rightarrow> None
      | Some None \<Rightarrow> None
      | Some (Some field_value) \<Rightarrow>
          if field_value \<noteq> [] \<and> strip field_value \<noteq> [] then Some (strip field_value) else None)"

text \<open>\<open>_get_entity_name_for_dataset\<close> (lines 288 to 300).\<close>

definition get_entity_name_for_dataset :: "dataset \<Rightarrow> string \<Rightarrow> string option" where
  "get_entity_name_for_dataset dataset_data field_name =
     (if field_name = [] then None else entity_name_of dataset_data field_name)"

text \<open>
  A reference table: the name of its identifier column and its rows, in insertion order.
  A row has an identifier, a name and, for a detector, the identifier of its accelerator.
\<close>

record ref_row =
  row_id :: int
  row_name :: string
  row_accelerator_id :: "int option"

record ref_table =
  id_column :: string
  rows :: "ref_row list"

text \<open>
  A row of the main table: identifier, name, metadata and the foreign-key columns that
  hold a value or NULL (a column that is absent from \<open>m_fks\<close> is NULL). The time stamps
  are left out.
\<close>

record 'u main_row =
  m_uuid :: 'u
  m_name :: string
  m_metadata :: metadata
  m_fks :: fk_dict

text \<open>
  What a run changes: the tables, the sequence of the reference identifiers, the number
  of fallback names drawn so far, and the log.
\<close>

record 'u state =
  ref_tables :: "(string \<times> ref_table) list"
  main_rows :: "'u main_row list"
  next_id :: int
  ticks :: nat
  logged :: "log_level list"

text \<open>
  What a run is given. The configuration values, None when the key is missing. The outcome
  of schema discovery (\<open>analyze_navigation_structure\<close>), an exception or the table name
  found for each entity key. The validation of a collection, whose module
  (\<open>app.storage.fcc_dict_parser\<close>) is not part of the sources: the datasets, or the text of
  the validation error. \<open>datetime.now()\<close> formatted and the first eight characters of
  \<open>uuid.uuid4()\<close>, for each draw. \<open>uuid5\<close> under the entity namespace. The constraints the
  main table's definition puts on a row, which is not part of the sources either.
\<close>

record 'u database =
  main_table :: "string option"
  batch_size :: "int option"
  navigation_order :: "string list option"
  navigation_tables :: "py_error + (string \<times> string) list"
  model_validate :: "metadata \<Rightarrow> string + dataset list"
  now_uuid4 :: "nat \<Rightarrow> string \<times> string"
  uuid5_ns :: "string \<Rightarrow> 'u"
  main_constraint :: "'u main_row \<Rightarrow> bool"

text \<open>
  \<open>async with conn.transaction()\<close>: when the body raises, the tables are as they were
  before it; the sequence, the clock and the log keep their values.
\<close>

definition logger :: "log_level \<Rightarrow> 'u state \<Rightarrow> 'u state" where
  "logger lvl s = s\<lparr>logged := logged s @ [lvl]\<rparr>"

definition transaction ::
  "('u state \<Rightarrow> (py_error + 'a) \<times> 'u state) \<Rightarrow> 'u state \<Rightarrow> (py_error + 'a) \<times> 'u state" where
  "transaction body s =
     (case body s of
        (Inr a, s') \<Rightarrow> (Inr a, s')
      | (Inl e, s') \<Rightarrow> (Inl e, s'\<lparr>ref_tables := ref_tables s, main_rows := main_rows s\<rparr>))"

subsection \<open>Reference tables\<close>

text \<open>
  The two statements of \<open>_get_or_create_entity\<close>. The lookup
  \<open>SELECT id_col FROM table WHERE name ILIKE $1\<close>, read by \<open>fetchrow\<close>, scans the rows and
  returns the first that matches. The insertion
  \<open>INSERT INTO table (columns) VALUES (...) RETURNING id_col\<close> draws an identifier from the
  sequence and adds the row. The texts of the database errors stand for the driver's.
\<close>

fun scan_ilike :: "ref_row list \<Rightarrow> string \<Rightarrow> py_error + ref_row option" where
  "scan_ilike [] pattern = Inr None"
| "scan_ilike (r # rs) pattern =
     (case ilike (row_name r) pattern of
        Match \<Rightarrow> Inr (Some r)
      | NoMatch \<Rightarrow> scan_ilike rs pattern
      | PatternError \<Rightarrow> Inl (PostgresError ''LIKE pattern must not end with escape character''))"

definition select_id_by_name ::
  "'u state \<Rightarrow> string \<Rightarrow> string \<Rightarrow> string \<Rightarrow> py_error + int option" where
  "select_id_by_name s table_name id_col name =
     (case map_of (ref_tables s) table_name of
        None \<Rightarrow> Inl (PostgresError ''relation does not exist'')
      | Some t \<Rightarrow>
          if id_col \<noteq> id_column t then Inl (PostgresError ''column does not exist'')
          else (case scan_ilike (rows t) name of
                  Inl e \<Rightarrow> Inl e
                | Inr None \<Rightarrow> Inr None
                | Inr (Some r) \<Rightarrow> Inr (Some (row_id r))))"

text \<open>
  Modelled from the spec: the unique constraint of a reference table, whose definition is
  not part of the sources (within one table, name is unique case-insensitively). Likewise
  \<open>GenericEntityCreate\<close>, whose fields set by the keyword arguments are the columns of the
  row.
\<close>

definition insert_returning_id ::
  "'u state \<Rightarrow> string \<Rightarrow> string \<Rightarrow> string \<Rightarrow> int option
     \<Rightarrow> (py_error + int option) \<times> 'u state" where
  "insert_returning_id s table_name id_col name acc_id =
     (case map_of (ref_tables s) table_name of
        None \<Rightarrow> (Inl (PostgresError ''relation does not exist''), s)
      | Some t \<Rightarrow>
          if id_col \<noteq> id_column t then (Inl (PostgresError ''column does not exist''), s)
          else
            (let new_id = next_id s; s1 = s\<lparr>next_id := new_id + 1\<rparr>
             in if list_ex (\<lambda>r. lower (row_name r) = lower name) (rows t)
                then (Inl UniqueViolationError, s1)
                else
                  (let r = \<lparr>row_id = new_id, row_name = name, row_accelerator_id = acc_id\<rparr>;
                       t' = t\<lparr>rows := rows t @ [r]\<rparr>
                   in (Inr (Some new_id),
                       s1\<lparr>ref_tables := dict_setitem (ref_tables s1) table_name t'\<rparr>))))"

text \<open>
  \<open>_get_or_create_entity\<close> (lines 686 to 722), with the keyword arguments \<open>name\<close> and,
  when given, \<open>accelerator_id\<close>.
\<close>

definition get_or_create_entity ::
  "'u state \<Rightarrow> string \<Rightarrow> string \<Rightarrow> int option \<Rightarrow> (py_error + int) \<times> 'u state" where
  "get_or_create_entity s table_name name accelerator_id =
     (if name = [] then
        (Inl (ValueError (''A '' @ [CHR 0x27] @ ''name'' @ [CHR 0x27]
               @ '' is required to find or create an entity.'')), s)
      else
        (let id_col = rstrip_chars table_name CHR ''s'' @ ''_id''
         in case select_id_by_name s table_name id_col name of
              Inl e \<Rightarrow> (Inl e, s)
            | Inr (Some i) \<Rightarrow> (Inr i, s)
            | Inr None \<Rightarrow>
                (case insert_returning_id s table_name id_col name accelerator_id of
                   (Inr None, s1) \<Rightarrow>
                     (Inl (RuntimeError (''Failed to create entity in '' @ table_name
                             @ '' with name '' @ name)), s1)
                 | (Inr (Some new_id), s1) \<Rightarrow> (Inr new_id, s1)
                 | (Inl UniqueViolationError, s1) \<Rightarrow>
                     (case select_id_by_name s1 table_name id_col name of
                        Inl e \<Rightarrow> (Inl e, s1)
                      | Inr (Some i) \<Rightarrow> (Inr i, s1)
                      | Inr None \<Rightarrow>
                          (Inl (RuntimeError (''Failed to create or find entity in ''
                                  @ table_name @ '' with name '' @ name)), s1))
                 | (Inl e, s1) \<Rightarrow> (Inl e, s1))))"

subsection \<open>Navigation structure\<close>

text \<open>
  \<open>_get_navigation_entity_structure\<close> (lines 336 to 401): the loop over the configured
  order, with the table names schema discovery found, and its two fallbacks.
\<close>

record entity_info =
  table_name :: string
  field_name :: string
  foreign_key_column :: string

type_synonym entity_structure = "(string \<times> entity_info) list"

fun build_structure :: "(string \<times> string) list \<Rightarrow> string list \<Rightarrow> entity_structure \<Rightarrow> entity_structure" where
  "build_structure nav_tables [] entity_structure = entity_structure"
| "build_structure nav_tables (entity_key # order) entity_structure =
     (let tn = (case map_of nav_tables entity_key of Some t \<Rightarrow> t | None \<Rightarrow> entity_key @ ''s'');
          info = \<lparr>table_name = tn, field_name = entity_key,
                   foreign_key_column = entity_key @ ''_id''\<rparr>
      in build_structure nav_tables order (dict_setitem entity_structure entity_key info))"

definition get_navigation_entity_structure ::
  "'u database \<Rightarrow> 'u state \<Rightarrow> entity_structure \<times> 'u state" where
  "get_navigation_entity_structure database s =
     (let attempt =
            (case main_table database of
               None \<Rightarrow> Inl (KeyError ''main_table'')
             | Some mt \<Rightarrow>
                 (case navigation_order database of
                    None \<Rightarrow> Inl (KeyError ''navigation'')
                  | Some order \<Rightarrow>
                      (case navigation_tables database of
                         Inl e \<Rightarrow> Inl e
                       | Inr nav \<Rightarrow> Inr (build_structure nav order []))))
      in case attempt of
           Inr entity_structure \<Rightarrow> (entity_structure, s)
         | Inl e \<Rightarrow>
             (let s1 = logger ERROR s
              in case navigation_order database of
                   Some order \<Rightarrow> (build_structure [] order [], logger INFO s1)
                 | None \<Rightarrow> ([], logger ERROR s1)))"

text \<open>
  The keyword argument \<open>accelerator_id\<close> of the call for an entity key, given the
  dictionary built so far (lines 441 to 455): the accelerator's identifier for a detector
  when \<open>foreign_key_ids.get("accelerator_id")\<close> is true, and no argument otherwise.
\<close>

definition accelerator_argument :: "string \<Rightarrow> fk_dict \<Rightarrow> int option" where
  "accelerator_argument entity_key foreign_key_ids =
     (let acc = dict_get foreign_key_ids ''accelerator_id'' None
      in if entity_key = ''detector'' \<and> (case acc of Some i \<Rightarrow> i \<noteq> 0 | None \<Rightarrow> False)
         then acc else None)"

text \<open>
  The dictionary \<open>_create_navigation_entities\<close> starts from (lines 412 to 415): every
  foreign-key column of the structure, with None.
\<close>

definition initial_foreign_key_ids :: "entity_structure \<Rightarrow> fk_dict" where
  "initial_foreign_key_ids entity_structure =
     fold (\<lambda>(k, info) d. dict_setitem d (foreign_key_column info) None) entity_structure []"

text \<open>
  \<open>_create_navigation_entities\<close> (lines 404 to 463). \<open>nav_loop\<close> is the loop inside the
  \<open>try\<close>: when a call raises, it stops with the exception and the dictionary as filled so
  far, which the handler logs and returns.
\<close>

fun nav_loop ::
  "(string \<times> entity_info) list \<Rightarrow> dataset \<Rightarrow> fk_dict \<Rightarrow> 'u state
     \<Rightarrow> (py_error option \<times> fk_dict) \<times> 'u state" where
  "nav_loop [] dataset_data foreign_key_ids s = ((None, foreign_key_ids), s)"
| "nav_loop ((entity_key, info) # items) dataset_data foreign_key_ids s =
     (case entity_name_of dataset_data (field_name info) of
        None \<Rightarrow> nav_loop items dataset_data foreign_key_ids s
      | Some entity_name \<Rightarrow>
          (case get_or_create_entity s (table_name info) entity_name
                  (accelerator_argument entity_key foreign_key_ids) of
             (Inl e, s1) \<Rightarrow> ((Some e, foreign_key_ids), s1)
           | (Inr i, s1) \<Rightarrow>
               nav_loop items dataset_data
                 (dict_setitem foreign_key_ids (foreign_key_column info) (Some i)) s1))"

definition create_navigation_entities ::
  "'u database \<Rightarrow> dataset \<Rightarrow> string \<Rightarrow> 'u state \<Rightarrow> fk_dict \<times> 'u state" where
  "create_navigation_entities database dataset_data dataset_name s =
     (case get_navigation_entity_structure database s of
        (entity_structure, s1) \<Rightarrow>
          (let foreign_key_ids = initial_foreign_key_ids entity_structure
           in if entity_structure = [] then (foreign_key_ids, logger WARNING s1)
              else
                (case nav_loop entity_structure dataset_data foreign_key_ids s1 of
                   ((None, fks), s2) \<Rightarrow> (fks, s2)
                 | ((Some e, fks), s2) \<Rightarrow> (fks, logger WARNING s2))))"

subsection \<open>Batch pre-resolution\<close>

text \<open>
  \<open>_preprocess_batch_navigation_entities\<close> (lines 178 to 225). A Python set is a list
  without duplicates, iterated in insertion order.
\<close>

type_synonym navigation_cache = "(string \<times> (string \<times> int) list) list"

definition set_add :: "'a list \<Rightarrow> 'a \<Rightarrow> 'a list" where
  "set_add xs x = (if x \<in> set xs then xs else xs @ [x])"

fun collect_names ::
  "entity_structure \<Rightarrow> dataset \<Rightarrow> (string \<times> string list) list \<Rightarrow> (string \<times> string list) list" where
  "collect_names [] dataset_data unique_entities = unique_entities"
| "collect_names ((entity_key, info) # items) dataset_data unique_entities =
     (case entity_name_of dataset_data (field_name info) of
        None \<Rightarrow> collect_names items dataset_data unique_entities
      | Some entity_name \<Rightarrow>
          collect_names items dataset_data
            (dict_setitem unique_entities entity_key
               (set_add (dict_get unique_entities entity_key []) entity_name)))"

fun create_names ::
  "string \<Rightarrow> string list \<Rightarrow> (string \<times> int) list \<Rightarrow> 'u state
     \<Rightarrow> (py_error + (string \<times> int) list) \<times> 'u state" where
  "create_names tn [] cache s = (Inr cache, s)"
| "create_names tn (name # names) cache s =
     (case get_or_create_entity s tn name None of
        (Inl e, s1) \<Rightarrow> (Inl e, s1)
      | (Inr entity_id, s1) \<Rightarrow> create_names tn names (dict_setitem cache name entity_id) s1)"

fun create_all ::
  "entity_structure \<Rightarrow> (string \<times> string list) list \<Rightarrow> navigation_cache \<Rightarrow> 'u state
     \<Rightarrow> (py_error + navigation_cache) \<times> 'u state" where
  "create_all entity_structure [] navigation_cache s = (Inr navigation_cache, s)"
| "create_all entity_structure ((entity_key, names) # rest) navigation_cache s =
     (case map_of entity_structure entity_key of
        None \<Rightarrow> (Inl (KeyError entity_key), s)
      | Some info \<Rightarrow>
          (case create_names (table_name info) names [] s of
             (Inl e, s1) \<Rightarrow> (Inl e, s1)
           | (Inr c, s1) \<Rightarrow>
               create_all entity_structure rest (dict_setitem navigation_cache entity_key c) s1))"

definition preprocess_batch_navigation_entities ::
  "'u database \<Rightarrow> dataset list \<Rightarrow> 'u state \<Rightarrow> (py_error + navigation_cache) \<times> 'u state" where
  "preprocess_batch_navigation_entities database batch s =
     (case get_navigation_entity_structure database s of
        (entity_structure, s1) \<Rightarrow>
          if entity_structure = [] then (Inr [], s1)
          else
            (let unique_entities = fold (\<lambda>d u. collect_names entity_structure d u) batch []
             in create_all entity_structure unique_entities [] s1))"

text \<open>\<open>_get_foreign_key_ids_from_cache\<close> (lines 252 to 285).\<close>

definition entity_key_mappings :: "(string \<times> string) list" where
  "entity_key_mappings =
     [(''accelerator'', ''accelerator_id''), (''stage'', ''stage_id''),
      (''campaign'', ''campaign_id''), (''detector'', ''detector_id''),
      (''file_type'', ''file_type_id'')]"

definition get_foreign_key_ids_from_cache :: "dataset \<Rightarrow> navigation_cache \<Rightarrow> fk_dict" where
  "get_foreign_key_ids_from_cache dataset_data navigation_cache =
     fold (\<lambda>(entity_key, foreign_key_col) foreign_key_ids.
             (case map_of navigation_cache entity_key of
                Some names \<Rightarrow>
                  (case get_entity_name_for_dataset dataset_data entity_key of
                     Some entity_name \<Rightarrow>
                       (case map_of names entity_name of
                          Some i \<Rightarrow> dict_setitem foreign_key_ids foreign_key_col (Some i)
                        | None \<Rightarrow> dict_setitem foreign_key_ids foreign_key_col None)
                   | None \<Rightarrow> dict_setitem foreign_key_ids foreign_key_col None)
              | None \<Rightarrow> dict_setitem foreign_key_ids foreign_key_col None))
       entity_key_mappings []"


subsection \<open>Main entity\<close>

text \<open>\<open>_generate_dataset_name\<close> (lines 323 to 333).\<close>

definition generate_dataset_name ::
  "'u database \<Rightarrow> dataset \<Rightarrow> nat \<Rightarrow> 'u state \<Rightarrow> string \<times> 'u state" where
  "generate_dataset_name database dataset_data idx s =
     (case process_name dataset_data of
        Some dataset_name \<Rightarrow>
          if dataset_name \<noteq> [] then (dataset_name, s)
          else
            (case now_uuid4 database (ticks s) of
               (timestamp, short_uuid) \<Rightarrow>
                 (''unnamed_dataset_'' @ timestamp @ ''_'' @ short_uuid @ ''_'' @ str_int (int idx),
                  logger WARNING (s\<lparr>ticks := ticks s + 1\<rparr>)))
      | None \<Rightarrow>
          (case now_uuid4 database (ticks s) of
             (timestamp, short_uuid) \<Rightarrow>
               (''unnamed_dataset_'' @ timestamp @ ''_'' @ short_uuid @ ''_'' @ str_int (int idx),
                logger WARNING (s\<lparr>ticks := ticks s + 1\<rparr>))))"

text \<open>
  \<open>entity_dict\<close> (lines 501 to 509) and \<open>_merge_metadata_with_locked_fields\<close> (lines 519
  to 544). The metadata column is read as the connection returns it by default, as text.
\<close>

record 'u entity =
  e_name :: string
  e_metadata :: metadata
  e_fks :: fk_dict
  e_uuid :: 'u

definition fetch_metadata :: "'u state \<Rightarrow> 'u \<Rightarrow> fetched_metadata" where
  "fetch_metadata s u =
     (case find (\<lambda>r. m_uuid r = u) (main_rows s) of
        None \<Rightarrow> NoMetadata
      | Some r \<Rightarrow> MetadataText (m_metadata r))"

definition merge_metadata_with_locked_fields :: "'u state \<Rightarrow> 'u entity \<Rightarrow> 'u entity" where
  "merge_metadata_with_locked_fields s entity_dict =
     (let new_metadata = e_metadata entity_dict;
          existing_metadata_result = fetch_metadata s (e_uuid entity_dict)
      in entity_dict\<lparr>e_metadata := merged_entity_metadata existing_metadata_result new_metadata\<rparr>)"

text \<open>
  \<open>_upsert_entity\<close> (lines 585 to 664), called without \<open>user_info\<close>. For every column of
  the entity but \<open>uuid\<close> the statement sets
  \<open>col = CASE WHEN COALESCE((metadata->'__col__lock__')::boolean, false) THEN old ELSE new\<close>,
  where the metadata is that of the stored row: a missing key unlocks, a JSON boolean
  decides, and any other value cannot be cast, which fails the statement.
\<close>

definition sql_lock_check :: "metadata \<Rightarrow> string \<Rightarrow> py_error + bool" where
  "sql_lock_check stored col =
     (case map_of stored (''__'' @ col @ ''__lock__'') of
        None \<Rightarrow> Inr False
      | Some (JBool b) \<Rightarrow> Inr b
      | Some v \<Rightarrow> Inl (PostgresError ''cannot cast jsonb value to type boolean''))"

fun update_fks :: "metadata \<Rightarrow> fk_dict \<Rightarrow> fk_dict \<Rightarrow> py_error + fk_dict" where
  "update_fks stored [] old_fks = Inr old_fks"
| "update_fks stored ((col, v) # cols) old_fks =
     (case sql_lock_check stored col of
        Inl e \<Rightarrow> Inl e
      | Inr locked \<Rightarrow>
          update_fks stored cols (if locked then old_fks else dict_setitem old_fks col v))"

definition on_conflict_update :: "'u main_row \<Rightarrow> 'u entity \<Rightarrow> py_error + 'u main_row" where
  "on_conflict_update old excluded =
     (case sql_lock_check (m_metadata old) ''name'' of
        Inl e \<Rightarrow> Inl e
      | Inr name_locked \<Rightarrow>
          (case sql_lock_check (m_metadata old) ''metadata'' of
             Inl e \<Rightarrow> Inl e
           | Inr metadata_locked \<Rightarrow>
               (case update_fks (m_metadata old) (e_fks excluded) (m_fks old) of
                  Inl e \<Rightarrow> Inl e
                | Inr fks \<Rightarrow>
                    Inr \<lparr>m_uuid = m_uuid old,
                         m_name = (if name_locked then m_name old else e_name excluded),
                         m_metadata = (if metadata_locked then m_metadata old else e_metadata excluded),
                         m_fks = fks\<rparr>)))"

fun replace_row :: "'u main_row list \<Rightarrow> 'u main_row \<Rightarrow> 'u main_row list" where
  "replace_row [] r = []"
| "replace_row (x # xs) r = (if m_uuid x = m_uuid r then r # xs else x # replace_row xs r)"

definition upsert_entity ::
  "'u database \<Rightarrow> 'u entity \<Rightarrow> 'u state \<Rightarrow> (py_error + unit) \<times> 'u state" where
  "upsert_entity database entity_dict s =
     (case find (\<lambda>r. m_uuid r = e_uuid entity_dict) (main_rows s) of
        None \<Rightarrow>
          (let r = \<lparr>m_uuid = e_uuid entity_dict, m_name = e_name entity_dict,
                      m_metadata = e_metadata entity_dict, m_fks = e_fks entity_dict\<rparr>
           in if main_constraint database r
              then (Inr (), s\<lparr>main_rows := main_rows s @ [r]\<rparr>)
              else (Inl (PostgresError ''violates constraint''), s))
      | Some old \<Rightarrow>
          (case on_conflict_update old entity_dict of
             Inl e \<Rightarrow> (Inl e, s)
           | Inr r \<Rightarrow>
               if main_constraint database r
               then (Inr (), s\<lparr>main_rows := replace_row (main_rows s) r\<rparr>)
               else (Inl (PostgresError ''violates constraint''), s)))"

text \<open>\<open>_create_main_entity\<close> (lines 485 to 516) and its wrapper (lines 466 to 482).\<close>

definition create_main_entity ::
  "'u database \<Rightarrow> string \<Rightarrow> metadata \<Rightarrow> fk_dict \<Rightarrow> 'u state \<Rightarrow> (py_error + unit) \<times> 'u state" where
  "create_main_entity database name metadata_dict foreign_key_ids s =
     (case generate_dataset_uuid (uuid5_ns database) name foreign_key_ids of
        Inl e \<Rightarrow> (Inl e, s)
      | Inr dataset_uuid \<Rightarrow>
          (let entity_dict = \<lparr>e_name = name, e_metadata = metadata_dict,
                               e_fks = foreign_key_ids, e_uuid = dataset_uuid\<rparr>;
               entity_dict = merge_metadata_with_locked_fields s entity_dict
           in upsert_entity database entity_dict s))"

definition create_main_entity_with_conflict_resolution ::
  "'u database \<Rightarrow> string \<Rightarrow> metadata \<Rightarrow> fk_dict \<Rightarrow> 'u state \<Rightarrow> (py_error + unit) \<times> 'u state" where
  "create_main_entity_with_conflict_resolution database dataset_name metadata_dict foreign_key_ids s =
     (case create_main_entity database dataset_name metadata_dict foreign_key_ids s of
        (Inr u, s1) \<Rightarrow> (Inr u, s1)
      | (Inl e, s1) \<Rightarrow> (Inl e, logger ERROR s1))"

text \<open>\<open>_process_single_entity\<close> (lines 228 to 249) and \<open>_process_single_dataset\<close> (lines 303 to 320).\<close>

definition process_single_entity ::
  "'u database \<Rightarrow> dataset \<Rightarrow> nat \<Rightarrow> navigation_cache \<Rightarrow> 'u state \<Rightarrow> (py_error + unit) \<times> 'u state" where
  "process_single_entity database dataset_data idx navigation_cache s =
     (case generate_dataset_name database dataset_data idx s of
        (dataset_name, s1) \<Rightarrow>
          (let s2 = logger INFO s1;
               foreign_key_ids = get_foreign_key_ids_from_cache dataset_data navigation_cache;
               metadata_dict = get_all_metadata dataset_data
           in create_main_entity_with_conflict_resolution database dataset_name metadata_dict
                foreign_key_ids s2))"

definition process_single_dataset ::
  "'u database \<Rightarrow> dataset \<Rightarrow> nat \<Rightarrow> 'u state \<Rightarrow> (py_error + unit) \<times> 'u state" where
  "process_single_dataset database dataset_data idx s =
     (case generate_dataset_name database dataset_data idx s of
        (dataset_name, s1) \<Rightarrow>
          (let s2 = logger INFO s1
           in case create_navigation_entities database dataset_data dataset_name s2 of
                (foreign_key_ids, s3) \<Rightarrow>
                  (let metadata_dict = get_all_metadata dataset_data
                   in create_main_entity_with_conflict_resolution database dataset_name
                        metadata_dict foreign_key_ids s3)))"

subsection \<open>Orchestrator\<close>

text \<open>
  \<open>_process_batch_all_or_nothing\<close> (lines 127 to 151) and \<open>_process_batch_individually\<close>
  (lines 154 to 175). A batch is the list of its datasets with their indices.
\<close>

fun process_entities ::
  "'u database \<Rightarrow> (nat \<times> dataset) list \<Rightarrow> navigation_cache \<Rightarrow> 'u state \<Rightarrow> (py_error + unit) \<times> 'u state" where
  "process_entities database [] navigation_cache s = (Inr (), s)"
| "process_entities database ((idx, dataset_data) # rest) navigation_cache s =
     (case process_single_entity database dataset_data idx navigation_cache s of
        (Inl e, s1) \<Rightarrow> (Inl e, s1)
      | (Inr u, s1) \<Rightarrow> process_entities database rest navigation_cache s1)"

definition process_batch_all_or_nothing ::
  "'u database \<Rightarrow> (nat \<times> dataset) list \<Rightarrow> 'u state \<Rightarrow> (nat \<times> nat) \<times> 'u state" where
  "process_batch_all_or_nothing database batch s =
     (case transaction
             (\<lambda>s0. case preprocess_batch_navigation_entities database (map snd batch) s0 of
                      (Inl e, s1) \<Rightarrow> (Inl e, s1)
                    | (Inr navigation_cache, s1) \<Rightarrow>
                        process_entities database batch navigation_cache s1) s of
        (Inr u, s') \<Rightarrow> ((length batch, 0), s')
      | (Inl e, s') \<Rightarrow> ((0, length batch), logger ERROR s'))"

fun process_batch_individually ::
  "'u database \<Rightarrow> (nat \<times> dataset) list \<Rightarrow> 'u state \<Rightarrow> (nat \<times> nat) \<times> 'u state" where
  "process_batch_individually database [] s = ((0, 0), s)"
| "process_batch_individually database ((idx, dataset_data) # rest) s =
     (case transaction (process_single_dataset database dataset_data idx) s of
        (Inr u, s1) \<Rightarrow>
          (case process_batch_individually database rest s1 of
             ((processed_count, failed_count), s2) \<Rightarrow> ((processed_count + 1, failed_count), s2))
      | (Inl e, s1) \<Rightarrow>
          (case process_batch_individually database rest (logger ERROR s1) of
             ((processed_count, failed_count), s2) \<Rightarrow> ((processed_count, failed_count + 1), s2)))"

text \<open>
  \<open>_process_entity_collection_with_recovery\<close> (lines 82 to 124): \<open>process_chunk\<close> is the
  body of its loop, \<open>batches\<close> the slices \<open>datasets[batch_start:batch_end]\<close> for the starts
  of \<open>range(0, len(datasets), batch_size)\<close>.
\<close>

definition process_chunk ::
  "'u database \<Rightarrow> (nat \<times> dataset) list \<Rightarrow> 'u state \<Rightarrow> (nat \<times> nat) \<times> 'u state" where
  "process_chunk database batch s =
     (case process_batch_all_or_nothing database batch (logger INFO s) of
        ((batch_processed, batch_failed), s1) \<Rightarrow>
          if batch_failed > 0 \<and> batch_processed = 0
          then (case process_batch_individually database batch (logger WARNING s1) of
                  (r, s2) \<Rightarrow> (r, logger INFO s2))
          else ((batch_processed, batch_failed), logger INFO s1))"

fun batches :: "nat \<Rightarrow> 'a list \<Rightarrow> 'a list list" where
  "batches n xs = (if n = 0 \<or> xs = [] then [] else take n xs # batches n (drop n xs))"

declare batches.simps [simp del]

fun process_chunks ::
  "'u database \<Rightarrow> (nat \<times> dataset) list list \<Rightarrow> nat \<times> nat \<Rightarrow> 'u state \<Rightarrow> (nat \<times> nat) \<times> 'u state" where
  "process_chunks database [] totals s = (totals, s)"
| "process_chunks database (batch # rest) (total_processed, total_failed) s =
     (case process_chunk database batch s of
        ((batch_processed, batch_failed), s1) \<Rightarrow>
          process_chunks database rest
            (total_processed + batch_processed, total_failed + batch_failed) s1)"

definition process_entity_collection_with_recovery ::
  "'u database \<Rightarrow> dataset list \<Rightarrow> 'u state \<Rightarrow> (py_error + nat \<times> nat) \<times> 'u state" where
  "process_entity_collection_with_recovery database collection s =
     (case batch_size database of
        None \<Rightarrow> (Inl (KeyError ''batch_size''), s)
      | Some bs \<Rightarrow>
          if bs = 0 then (Inl (ValueError ''range() arg 3 must not be zero''), s)
          else if bs < 0 then (Inr (0, 0), s)
          else
            (case process_chunks database
                    (batches (nat bs) (zip [0..<length collection] collection)) (0, 0) s of
               (totals, s1) \<Rightarrow> (Inr totals, s1)))"

text \<open>
  \<open>_log_import_results\<close> and \<open>_validate_import_success\<close> (lines 667 to 683). The quotient
  \<open>total_datasets / 2\<close> is the exact one, which the float is for every total below
  \<open>2 ^ 53\<close>.
\<close>

definition log_import_results :: "nat \<Rightarrow> nat \<Rightarrow> 'u state \<Rightarrow> 'u state" where
  "log_import_results processed_count failed_count s =
     (if failed_count > 0 then logger WARNING s else logger INFO s)"

definition validate_import_success :: "nat \<Rightarrow> nat \<Rightarrow> py_error + unit" where
  "validate_import_success processed_count failed_count =
     (let total_datasets = processed_count + failed_count
      in if total_datasets > 0 \<and> (of_nat failed_count :: rat) > of_nat total_datasets / 2
         then Inl (RuntimeError (''Import failed: '' @ str_nat failed_count @ ''/''
                     @ str_nat total_datasets @ '' datasets could not be processed''))
         else Inr ())"

text \<open>
  \<open>_parse_json_content\<close> (lines 56 to 79): \<open>parse_body\<close> is the body of its \<open>try\<close>, on the
  outcome of \<open>json.loads\<close>; \<open>str_of_error\<close> is \<open>str(e)\<close>. Then \<open>import_data\<close> (lines 24 to 50).
\<close>

datatype json_content = NotJson | Json json

definition parse_body :: "'u database \<Rightarrow> json_content \<Rightarrow> py_error + dataset list" where
  "parse_body database content =
     (case content of
        NotJson \<Rightarrow> Inl JSONDecodeError
      | Json raw_data \<Rightarrow>
          (case raw_data of
             JDict d \<Rightarrow>
               (case map_of d ''processes'' of
                  None \<Rightarrow>
                    Inl (ValueError (''JSON does not contain '' @ [CHR 0x27] @ ''processes''
                           @ [CHR 0x27] @ '' key - skipping incompatible format''))
                | Some (JList ps) \<Rightarrow>
                    (case model_validate database d of
                       Inl msg \<Rightarrow> Inl (ValidationError msg)
                     | Inr c \<Rightarrow> Inr c)
                | Some v \<Rightarrow>
                    Inl (ValueError ([CHR 0x27] @ ''processes'' @ [CHR 0x27]
                           @ '' value must be a list - skipping incompatible format'')))
           | v \<Rightarrow> Inl (ValueError ''JSON root must be an object'')))"

definition str_of_error :: "py_error \<Rightarrow> string" where
  "str_of_error e =
     (case e of ValueError m \<Rightarrow> m | ValidationError m \<Rightarrow> m | RuntimeError m \<Rightarrow> m
      | KeyError k \<Rightarrow> [CHR 0x27] @ k @ [CHR 0x27] | PostgresError m \<Rightarrow> m
      | JSONDecodeError \<Rightarrow> '''' | UniqueViolationError \<Rightarrow> '''')"

definition parse_json_content :: "'u database \<Rightarrow> json_content \<Rightarrow> py_error + dataset list" where
  "parse_json_content database content =
     (case parse_body database content of
        Inr c \<Rightarrow> Inr c
      | Inl JSONDecodeError \<Rightarrow> Inl (ValueError ''Invalid JSON format'')
      | Inl e \<Rightarrow> Inl (ValueError (''Invalid data format: '' @ str_of_error e)))"

definition import_data ::
  "'u database \<Rightarrow> json_content \<Rightarrow> 'u state \<Rightarrow> (py_error + unit) \<times> 'u state" where
  "import_data database content s =
     (case parse_json_content database content of
        Inl e \<Rightarrow>
          if str_contains (str_of_error e) ''skipping incompatible format''
          then (Inr (), logger INFO s)
          else (Inl e, s)
      | Inr collection \<Rightarrow>
          (case main_table database of
             None \<Rightarrow> (Inl (KeyError ''main_table''), s)
           | Some mt \<Rightarrow>
               (case process_entity_collection_with_recovery database collection s of
                  (Inl e, s1) \<Rightarrow> (Inl e, s1)
                | (Inr (processed_count, failed_count), s1) \<Rightarrow>
                    (let s2 = log_import_results processed_count failed_count s1
                     in case validate_import_success processed_count failed_count of
                          Inl e \<Rightarrow> (Inl e, s2)
                        | Inr u \<Rightarrow> (Inr (), logger INFO s2)))))"

text \<open>
  \<open>_detect_fcc_format\<close> of json\_data\_parser.py (lines 342 to 344), the rule under which
  a collection format is registered: the root object has a key \<open>processes\<close> whose value is
  a list. \<open>recognized\<close> extends it to any input: text that is not JSON, or whose root is
  not an object, is not recognized.
\<close>

definition detect_fcc_format :: "metadata \<Rightarrow> bool" where
  "detect_fcc_format raw_data =
     (case map_of raw_data ''processes'' of Some (JList ps) \<Rightarrow> True | _ \<Rightarrow> False)"

definition recognized :: "json_content \<Rightarrow> bool" where
  "recognized content =
     (case content of Json (JDict d) \<Rightarrow> detect_fcc_format d | _ \<Rightarrow> False)"

definition is_object :: "json \<Rightarrow> bool" where
  "is_object v = (case v of JDict d \<Rightarrow> True | _ \<Rightarrow> False)"

text \<open>
  The stored metadata of an identifier, and automated imports that target one identity:
  \<open>import_record\<close> is the state after \<open>_create_main_entity\<close> was run for a name, its
  resolved foreign keys and a metadata dictionary, whether it returned or raised, and
  \<open>import_records\<close> runs it for a sequence of metadata dictionaries. \<open>keeps_lock\<close> says
  of an import that it does not set the lock-control key of a field to an unlocked value.
\<close>

definition stored_metadata :: "'u state \<Rightarrow> 'u \<Rightarrow> metadata option" where
  "stored_metadata s u =
     (case find (\<lambda>r. m_uuid r = u) (main_rows s) of
        None \<Rightarrow> None
      | Some r \<Rightarrow> Some (m_metadata r))"

definition import_record ::
  "'u database \<Rightarrow> string \<Rightarrow> fk_dict \<Rightarrow> metadata \<Rightarrow> 'u state \<Rightarrow> 'u state" where
  "import_record database name foreign_key_ids metadata_dict s =
     snd (create_main_entity database name metadata_dict foreign_key_ids s)"

definition import_records ::
  "'u database \<Rightarrow> string \<Rightarrow> fk_dict \<Rightarrow> metadata list \<Rightarrow> 'u state \<Rightarrow> 'u state" where
  "import_records database name foreign_key_ids imports s =
     fold (import_record database name foreign_key_ids) imports s"

definition keeps_lock :: "string \<Rightarrow> metadata \<Rightarrow> bool" where
  "keeps_lock field metadata_dict =
     (case map_of metadata_dict (control_key field) of None \<Rightarrow> True | Some v \<Rightarrow> py_truthy v)"

text \<open>
  What a locked field keeps through imports: the stored metadata is a dictionary, it holds
  a true value under the control key of the field, and the field has the value \<open>v0\<close>.
\<close>

definition locked_inv :: "string \<Rightarrow> json option \<Rightarrow> metadata \<Rightarrow> bool" where
  "locked_inv field v0 m = (distinct (map fst m) \<and> holds_true m (control_key field)
     \<and> map_of m field = v0)"

text \<open>
  The identifiers stored in the main table; a dataset that carries a process name; and the
  identifier the batch path derives for it from its name and the references resolved in
  the cache.
\<close>

definition stored_uuids :: "'u state \<Rightarrow> 'u set" where
  "stored_uuids s = m_uuid ` set (main_rows s)"

definition named :: "dataset \<Rightarrow> bool" where
  "named d = (case process_name d of None \<Rightarrow> False | Some n \<Rightarrow> n \<noteq> [])"

definition record_uuid :: "'u database \<Rightarrow> navigation_cache \<Rightarrow> dataset \<Rightarrow> py_error + 'u" where
  "record_uuid database navigation_cache d =
     generate_dataset_uuid (uuid5_ns database) (the (process_name d))
       (get_foreign_key_ids_from_cache d navigation_cache)"

subsection \<open>An example installation\<close>

text \<open>
  Five empty reference tables named by the plural convention, batches of five, schema
  discovery that finds no table name, and a main table that refuses the name \<open>bad\<close>.
\<close>

definition ex_tables :: "(string \<times> ref_table) list" where
  "ex_tables =
     [(''accelerators'', \<lparr>id_column = ''accelerator_id'', rows = []\<rparr>),
      (''stages'', \<lparr>id_column = ''stage_id'', rows = []\<rparr>),
      (''campaigns'', \<lparr>id_column = ''campaign_id'', rows = []\<rparr>),
      (''detectors'', \<lparr>id_column = ''detector_id'', rows = []\<rparr>),
      (''file_types'', \<lparr>id_column = ''file_type_id'', rows = []\<rparr>)]"

definition ex_state :: "string state" where
  "ex_state = \<lparr>ref_tables = ex_tables, main_rows = [], next_id = 1, ticks = 0, logged = []\<rparr>"

definition ex_database :: "string database" where
  "ex_database =
     \<lparr>main_table = Some ''datasets'', batch_size = Some 5,
      navigation_order = Some [''accelerator'', ''stage'', ''campaign'', ''detector'', ''file_type''],
      navigation_tables = Inr [],
      model_validate = (\<lambda>d. Inr []),
      now_uuid4 = (\<lambda>n. (''20240101_000000'', str_nat n)),
      uuid5_ns = (\<lambda>uuid_name. uuid_name),
      main_constraint = (\<lambda>r. m_name r \<noteq> ''bad'')\<rparr>"

definition ex_dataset :: "string \<Rightarrow> dataset" where
  "ex_dataset n = \<lparr>process_name = Some n, n_events = Some 100, path = None, size_field = None,
           description = None, comment_field = None, status = Some ''A'',
           accelerator = Some ''fcc-ee'', stage = None, campaign = Some ''winter2023'',
           detector = Some ''IDEA'', file_type = None, raw_metadata = []\<rparr>"

definition ex_content :: json_content where
  "ex_content = Json (JDict [(''processes'', JList [])])"

definition ex_database_of :: "dataset list \<Rightarrow> string database" where
  "ex_database_of collection = ex_database\<lparr>model_validate := (\<lambda>d. Inr collection)\<rparr>"


text \<open>The same installation, with a validation that fails.\<close>

definition ex_database_invalid :: "string database" where
  "ex_database_invalid = ex_database\<lparr>model_validate := (\<lambda>d. Inl ''1 validation error'')\<rparr>"

text \<open>The example state after a campaign named \<open>abc\<close> has been created.\<close>

definition ex_state_abc :: "string state" where
  "ex_state_abc =
     ex_state\<lparr>ref_tables := dict_setitem ex_tables ''campaigns''
                  \<lparr>id_column = ''campaign_id'',
                   rows = [\<lparr>row_id = 1, row_name = ''abc'', row_accelerator_id = None\<rparr>]\<rparr>,
               next_id := 2\<rparr>"

text \<open>
  The example state after the accelerator \<open>fcc-ee\<close> has been created, and a dataset whose
  accelerator name ends in a backslash, which the lookup cannot take as a pattern.
\<close>

definition ex_state_fcc :: "string state" where
  "ex_state_fcc =
     ex_state\<lparr>ref_tables := dict_setitem ex_tables ''accelerators''
                  \<lparr>id_column = ''accelerator_id'',
                   rows = [\<lparr>row_id = 1, row_name = ''fcc-ee'', row_accelerator_id = None\<rparr>]\<rparr>,
               next_id := 2\<rparr>"

definition ex_dataset_backslash :: dataset where
  "ex_dataset_backslash = (ex_dataset ''e'')\<lparr>accelerator := Some (''fcc'' @ [CHR 0x5C])\<rparr>"



definition ex_null_fks :: fk_dict where
  "ex_null_fks =
     [(''accelerator_id'', None), (''stage_id'', None), (''campaign_id'', None),
      (''detector_id'', None), (''file_type_id'', None)]"

text \<open>
  A stored record named \<open>x\<close>, without references, whose status is locked; and the same
  record when its metadata also locks the metadata column.
\<close>

definition ex_locked_metadata :: metadata where
  "ex_locked_metadata = [(''__status__lock__'', JBool True), (''status'', JStr ''A'')]"

definition ex_frozen_metadata :: metadata where
  "ex_frozen_metadata =
     [(''__status__lock__'', JBool True), (''status'', JStr ''A''),
      (''__metadata__lock__'', JBool True)]"

definition ex_state_stored :: "metadata \<Rightarrow> string state" where
  "ex_state_stored m =
     ex_state\<lparr>main_rows := [\<lparr>m_uuid = ''x,0,0,0,0,0'', m_name = ''x'', m_metadata = m,
                               m_fks = ex_null_fks\<rparr>]\<rparr>"

text \<open>A dataset without a process name.\<close>

definition ex_dataset_unnamed :: dataset where
  "ex_dataset_unnamed = (ex_dataset [])\<lparr>process_name := None\<rparr>"

section \<open>Properties\<close>

subsection \<open>Identifier derivation\<close>

lemma insort_map_conv: "insort (f a) (map f ys) = map f (insort_key f a ys)"
  by (induction ys) simp_all

lemma sort_map_conv: "sort (map f xs) = map f (sort_key f xs)"
  by (induction xs) (simp_all add: insort_map_conv)

lemma foreign_key_parts_entries:
  assumes "distinct (map fst d)" and "set es \<subseteq> set d"
  shows "foreign_key_parts d (map fst es) = Inr (map (\<lambda>e. render_fk (snd e)) es)"
  using assms(2)
proof (induction es)
  case Nil
  then show ?case by simp
next
  case (Cons e es)
  from Cons.prems have "(fst e, snd e) \<in> set d" by simp
  with assms(1) have "map_of d (fst e) = Some (snd e)"
    by (simp add: map_of_eq_Some_iff)
  moreover from Cons have "foreign_key_parts d (map fst es) = Inr (map (\<lambda>e. render_fk (snd e)) es)"
    by simp
  ultimately show ?case
    by (simp add: dict_getitem_def render_fk_def)
qed

lemma generate_dataset_uuid_eq:
  assumes "distinct (map fst fks)"
  shows "generate_dataset_uuid h name fks = Inr (h (canonical_string name fks))"
proof -
  have "foreign_key_parts fks (map fst (sort_key fst fks))
          = Inr (map (\<lambda>e. render_fk (snd e)) (sort_key fst fks))"
    using assms by (intro foreign_key_parts_entries) simp_all
  then show ?thesis
    by (simp add: generate_dataset_uuid_def dict_keys_def sort_map_conv canonical_string_def)
qed

lemma canonical_string_perm:
  assumes "distinct (map fst fks)" and "mset fks' = mset fks"
  shows "canonical_string name fks' = canonical_string name fks"
proof -
  from assms(1) have "inj_on fst (set fks)" by (simp add: distinct_map)
  with assms(2) have "inj_on fst (set fks')" by (metis set_mset_mset)
  with assms(2) have "sort_key fst fks' = sort_key fst fks"
    by (rule sort_key_eq_sort_key)
  then show ?thesis by (simp add: canonical_string_def)
qed

text \<open>
  Claim C1. For every dataset name and every foreign-key dictionary (distinct key names,
  values an integer or None), \<open>generate_dataset_uuid\<close> returns, without raising, the
  UUID5 of the canonical string: the entries sorted by key name, each value rendered as
  its decimal string or \<open>''0''\<close> for None, joined with commas, after the dataset name
  and a comma. Hence the result is a function of the inputs, and a dictionary holding the
  same entries in another iteration order gives the same identifier.
\<close>

theorem generate_dataset_uuid_canonical:
  assumes "distinct (map fst fks)" and "mset fks' = mset fks"
  shows "generate_dataset_uuid h name fks = Inr (h (canonical_string name fks))
       \<and> generate_dataset_uuid h name fks' = generate_dataset_uuid h name fks"
proof -
  from assms(2) have "mset (map fst fks') = mset (map fst fks)"
    by simp
  then have "distinct (map fst fks') = distinct (map fst fks)"
    by (rule mset_eq_imp_distinct_iff)
  with assms(1) have d': "distinct (map fst fks')"
    by simp
  have "canonical_string name fks' = canonical_string name fks"
    using assms by (rule canonical_string_perm)
  then show ?thesis
    by (simp add: generate_dataset_uuid_eq [OF assms(1)] generate_dataset_uuid_eq [OF d'])
qed

lemma fk_example_perm: "mset [(''detector_id'', Some (2::int)), (''campaign_id'', Some 1), (''accelerator_id'', None)]
       = mset [(''campaign_id'', Some 1), (''accelerator_id'', None), (''detector_id'', Some 2)]"
  by (simp add: add_mset_commute)

lemma fk_example_canonical: "canonical_string ''my_dataset'' [(''campaign_id'', Some (1::int)), (''accelerator_id'', None), (''detector_id'', Some 2)] = ''my_dataset,0,1,2''"
  by code_simp

theorem generate_dataset_uuid_canonical_witness:
  "distinct (map fst [(''campaign_id'', Some (1::int)), (''accelerator_id'', None), (''detector_id'', Some 2)])
   \<and> mset [(''detector_id'', Some (2::int)), (''campaign_id'', Some 1), (''accelerator_id'', None)]
       = mset [(''campaign_id'', Some 1), (''accelerator_id'', None), (''detector_id'', Some 2)]
   \<and> generate_dataset_uuid (\<lambda>uuid_name. uuid_name) ''my_dataset''
         [(''campaign_id'', Some 1), (''accelerator_id'', None), (''detector_id'', Some 2)]
       = Inr ''my_dataset,0,1,2''
   \<and> generate_dataset_uuid (\<lambda>uuid_name. uuid_name) ''my_dataset''
         [(''detector_id'', Some 2), (''campaign_id'', Some 1), (''accelerator_id'', None)]
       = Inr ''my_dataset,0,1,2''"
proof -
  let ?a = "[(''campaign_id'', Some (1::int)), (''accelerator_id'', None), (''detector_id'', Some 2)]"
  let ?b = "[(''detector_id'', Some (2::int)), (''campaign_id'', Some 1), (''accelerator_id'', None)]"
  have d: "distinct (map fst ?a)" by simp
  note t = generate_dataset_uuid_canonical [OF d fk_example_perm, of "\<lambda>uuid_name. uuid_name" "''my_dataset''"]
  show ?thesis
    using t d fk_example_perm by (simp only: fk_example_canonical simp_thms)
qed

subsection \<open>Metadata merge policy\<close>

lemma map_of_dict_setitem: "map_of (dict_setitem d k v) = (map_of d)(k \<mapsto> v)"
  by (induction d k v rule: dict_setitem.induct) auto

lemma keys_dict_setitem: "set (map fst (dict_setitem d k v)) = insert k (set (map fst d))"
  by (induction d k v rule: dict_setitem.induct) auto

lemma distinct_dict_setitem: "distinct (map fst d) \<Longrightarrow> distinct (map fst (dict_setitem d k v))"
proof (induction d k v rule: dict_setitem.induct)
  case (1 k v)
  then show ?case by simp
next
  case (2 k' v' d k v)
  then show ?case
    using keys_dict_setitem [of d k v] by auto
qed

lemma distinct_merge_loop:
  "distinct (map fst m) \<Longrightarrow> distinct (map fst (merge_loop e m items))"
  by (induction e m items rule: merge_loop.induct) (simp_all add: distinct_dict_setitem Let_def)

lemma map_of_merge_loop:
  "distinct (map fst items) \<Longrightarrow>
   map_of (merge_loop e m items) k =
     (if k \<in> set (map fst items) \<and> (is_lock_control_key k \<or> \<not> holds_true e (control_key k))
      then map_of items k else map_of m k)"
proof (induction e m items rule: merge_loop.induct)
  case (1 e m)
  then show ?case by simp
next
  case (2 e m key val items)
  have nk: "key \<notin> fst ` set items" using "2.prems" by simp
  have lk: "py_truthy (dict_get e (''__'' @ key @ ''__lock__'') (JBool False)) = holds_true e (control_key key)"
    by (simp add: dict_get_def holds_true_def control_key_def split: option.splits)
  show ?case
    using "2.IH" "2.prems" nk lk
    by (auto simp add: Let_def is_lock_control_key_def map_of_dict_setitem image_iff)
qed

lemma map_of_filter_empty:
  "distinct (map fst d) \<Longrightarrow> map_of (filter_empty_metadata_values d) k = strip_empty (map_of d k)"
proof (induction d)
  case Nil
  then show ?case by (simp add: filter_empty_metadata_values_def strip_empty_def)
next
  case (Cons a d)
  obtain k' v' where a: "a = (k', v')" by (cases a)
  from Cons.prems a have "map_of d k' = None"
    by (simp add: map_of_eq_None_iff)
  moreover have "map_of (filter_empty_metadata_values d) k' = None"
    using Cons.prems a by (auto simp add: filter_empty_metadata_values_def map_of_eq_None_iff)
  ultimately show ?case
    using Cons a
    by (auto simp add: filter_empty_metadata_values_def strip_empty_def is_empty_value_def)
qed

lemma distinct_filter_empty:
  "distinct (map fst d) \<Longrightarrow> distinct (map fst (filter_empty_metadata_values d))"
  by (simp add: filter_empty_metadata_values_def distinct_map_filter)

text \<open>
  Claim C2. For every existing and new metadata dictionary, the merge returns the existing
  dictionary updated by the new one: a lock-control key of the new metadata (it starts
  with \<open>__\<close> and ends with \<open>__lock__\<close>) is always applied; any other key is applied
  exactly when the existing metadata holds no true value under \<open>__<key>__lock__\<close>, and
  keeps the existing value otherwise; then every key whose value is an empty string, null
  or an empty list is removed. With no stored record, the result is the new metadata with
  only the filter applied. The result is stated key by key, as a lookup.
\<close>

theorem merge_metadata_policy:
  assumes "distinct (map fst existing)" and "distinct (map fst new)"
    and "r = MetadataText existing \<or> r = MetadataDict existing"
  shows "map_of (merged_entity_metadata r new) k = strip_empty (merged_value existing new k)
       \<and> distinct (map fst (merged_entity_metadata r new))
       \<and> merged_entity_metadata NoMetadata new = filter_empty_metadata_values new
       \<and> map_of (merged_entity_metadata NoMetadata new) k = strip_empty (map_of new k)"
proof -
  have d: "distinct (map fst (merge_loop existing existing new))"
    using assms(1) by (rule distinct_merge_loop)
  have m: "map_of (filter_empty_metadata_values (merge_metadata_respecting_locks existing new)) k
             = strip_empty (merged_value existing new k)"
    using assms(2) d
    by (simp add: merge_metadata_respecting_locks_def map_of_filter_empty map_of_merge_loop
        merged_value_def)
  have n: "k \<notin> fst ` set new \<Longrightarrow> map_of new k = None"
    by (simp add: map_of_eq_None_iff)
  have e: "existing = [] \<Longrightarrow> merged_value existing new k = map_of new k"
    using n by (simp add: merged_value_def holds_true_def)
  have f: "map_of (filter_empty_metadata_values new) k = strip_empty (map_of new k)"
    using assms(2) by (rule map_of_filter_empty)
  have "map_of (merged_entity_metadata r new) k = strip_empty (merged_value existing new k)"
  proof (cases "fetched_truthy r")
    case True
    with assms(3) m show ?thesis
      by (auto simp add: merged_entity_metadata_def)
  next
    case False
    with assms(3) have "existing = []" by auto
    with False e f show ?thesis
      by (simp add: merged_entity_metadata_def)
  qed
  moreover have "distinct (map fst (merged_entity_metadata r new))"
    using assms d
    by (auto simp add: merged_entity_metadata_def merge_metadata_respecting_locks_def
        distinct_filter_empty)
  moreover have "merged_entity_metadata NoMetadata new = filter_empty_metadata_values new"
    by (simp add: merged_entity_metadata_def)
  ultimately show ?thesis
    using f by simp
qed

lemma merge_example:
  "merged_entity_metadata (MetadataText [(''__status__lock__'', JBool True), (''status'', JStr ''A'')])
     [(''status'', JStr ''B''), (''comment'', JStr ''''), (''tags'', JList []), (''note'', JNull),
      (''size'', JInt 10)]
   = [(''__status__lock__'', JBool True), (''status'', JStr ''A''), (''size'', JInt 10)]"
  by code_simp

lemma merge_example2:
  "strip_empty (merged_value [(''__status__lock__'', JBool True), (''status'', JStr ''A'')]
     [(''status'', JStr ''B''), (''comment'', JStr ''''), (''tags'', JList []), (''note'', JNull),
      (''size'', JInt 10)] ''status'') = Some (JStr ''A'')"
  by code_simp

lemma merge_example_status:
  "strip_empty (merged_value [(''__status__lock__'', JBool True), (''status'', JStr ''A'')]
     [(''status'', JStr ''B''), (''comment'', JStr ''''), (''tags'', JList []), (''note'', JNull),
      (''size'', JInt 10)] ''status'') = Some (JStr ''A'')"
  by code_simp

theorem merge_metadata_policy_witness:
  "distinct (map fst [(''__status__lock__'', JBool True), (''status'', JStr ''A'')])
   \<and> distinct (map fst [(''status'', JStr ''B''), (''comment'', JStr ''''), (''tags'', JList []),
         (''note'', JNull), (''size'', JInt 10)])
   \<and> map_of (merged_entity_metadata
         (MetadataText [(''__status__lock__'', JBool True), (''status'', JStr ''A'')])
         [(''status'', JStr ''B''), (''comment'', JStr ''''), (''tags'', JList []),
          (''note'', JNull), (''size'', JInt 10)]) ''status'' = Some (JStr ''A'')"
proof -
  let ?e = "[(''__status__lock__'', JBool True), (''status'', JStr ''A'')]"
  let ?n = "[(''status'', JStr ''B''), (''comment'', JStr ''''), (''tags'', JList []),
             (''note'', JNull), (''size'', JInt 10)]"
  have d1: "distinct (map fst ?e)" by simp
  have d2: "distinct (map fst ?n)" by simp
  have r: "MetadataText ?e = MetadataText ?e \<or> MetadataText ?e = MetadataDict ?e" by simp
  note t = merge_metadata_policy [OF d1 d2 r, of "''status''"]
  show ?thesis
    using t d1 d2 by (simp only: merge_example_status simp_thms)
qed

lemma map_of_merged_text:
  assumes "distinct (map fst existing)" and "distinct (map fst new)"
  shows "map_of (merged_entity_metadata (MetadataText existing) new) k
           = strip_empty (merged_value existing new k)
       \<and> distinct (map fst (merged_entity_metadata (MetadataText existing) new))"
proof -
  have d: "distinct (map fst (merge_loop existing existing new))"
    using assms(1) by (rule distinct_merge_loop)
  with assms(2) show ?thesis
    by (simp add: merged_entity_metadata_def merge_metadata_respecting_locks_def
        map_of_filter_empty map_of_merge_loop merged_value_def distinct_filter_empty)
qed

lemma control_key_is_lock_control_key: "is_lock_control_key (control_key field)"
  by (simp add: is_lock_control_key_def control_key_def startswith_def endswith_def)

lemma truthy_not_empty: "py_truthy v \<Longrightarrow> \<not> is_empty_value v"
  by (auto simp add: is_empty_value_def)

subsection \<open>Batch attempt and fallback\<close>













subsection \<open>The failure threshold\<close>

lemma validate_import_success_iff:
  "(validate_import_success p f = Inr ()) = (2 * f \<le> p + f)"
proof -
  have "((of_nat f :: rat) > of_nat (p + f) / 2) = (2 * f > p + f)"
  proof -
    have "((of_nat f :: rat) > of_nat (p + f) / 2) = ((of_nat (p + f) :: rat) < of_nat (2 * f))"
      by (simp add: field_simps)
    also have "\<dots> = (p + f < 2 * f)"
      by (simp only: of_nat_less_iff)
    finally show ?thesis .
  qed
  then show ?thesis
    by (auto simp add: validate_import_success_def Let_def)
qed

lemma validate_import_success_raises:
  "validate_import_success p f = Inr () \<or>
   validate_import_success p f = Inl (RuntimeError (''Import failed: '' @ str_nat f @ ''/''
       @ str_nat (p + f) @ '' datasets could not be processed''))"
  by (simp add: validate_import_success_def Let_def)

lemma tables_logger [simp]:
  "main_rows (logger lvl s) = main_rows s" "ref_tables (logger lvl s) = ref_tables s"
  by (simp_all add: logger_def)

lemma tables_log_import_results [simp]:
  "main_rows (log_import_results p f s) = main_rows s"
  "ref_tables (log_import_results p f s) = ref_tables s"
  by (simp_all add: log_import_results_def)

lemma import_data_run:
  assumes "parse_json_content database content = Inr collection"
    and "main_table database = Some mt"
    and "process_entity_collection_with_recovery database collection s = (Inr (p, f), s1)"
  shows "import_data database content s =
           (case validate_import_success p f of
              Inl e \<Rightarrow> (Inl e, log_import_results p f s1)
            | Inr u \<Rightarrow> (Inr (), logger INFO (log_import_results p f s1)))"
  using assms by (simp add: import_data_def Let_def)

text \<open>
  Claim C5. After all chunks are processed, the import raises exactly when the failed
  records are strictly more than half of the attempted ones (processed plus failed): it
  raises with 6 failed of 10 and returns with 5 failed of 10. A raise comes after the last
  chunk and leaves the tables as the chunks left them.
\<close>

theorem import_failure_threshold:
  assumes "parse_json_content database content = Inr collection"
    and "main_table database = Some mt"
    and "fst (process_entity_collection_with_recovery database collection s) = Inr (p, f)"
  shows "(fst (import_data database content s) = Inr ()) = (2 * f \<le> p + f)
       \<and> (fst (import_data database content s)
            = Inl (RuntimeError (''Import failed: '' @ str_nat f @ ''/'' @ str_nat (p + f)
                     @ '' datasets could not be processed''))) = (p + f < 2 * f)
       \<and> main_rows (snd (import_data database content s))
            = main_rows (snd (process_entity_collection_with_recovery database collection s))
       \<and> ref_tables (snd (import_data database content s))
            = ref_tables (snd (process_entity_collection_with_recovery database collection s))
       \<and> validate_import_success 4 6 \<noteq> Inr ()
       \<and> validate_import_success 5 5 = Inr ()"
proof -
  obtain s1 where r: "process_entity_collection_with_recovery database collection s = (Inr (p, f), s1)"
    using assms(3) by (cases "process_entity_collection_with_recovery database collection s") auto
  note run = import_data_run [OF assms(1,2) r]
  have ex: "validate_import_success 4 6 \<noteq> Inr ()" "validate_import_success 5 5 = Inr ()"
    by (simp_all add: validate_import_success_iff)
  show ?thesis
  proof (cases "validate_import_success p f")
    case (Inl e)
    with validate_import_success_iff [of p f] have lt: "p + f < 2 * f" by auto
    from Inl validate_import_success_raises [of p f]
    have e: "e = RuntimeError (''Import failed: '' @ str_nat f @ ''/''
       @ str_nat (p + f) @ '' datasets could not be processed'')" by simp
    have "import_data database content s = (Inl e, log_import_results p f s1)"
      using run Inl by simp
    then show ?thesis
      using lt e r ex by simp
  next
    case (Inr u)
    with validate_import_success_iff [of p f] have le: "2 * f \<le> p + f" by simp
    have "import_data database content s = (Inr (), logger INFO (log_import_results p f s1))"
      using run Inr by simp
    then show ?thesis
      using le r ex by simp
  qed
qed

lemma ex_threshold_run:
  "fst (process_entity_collection_with_recovery
          (ex_database_of [ex_dataset ''bad'', ex_dataset ''a'', ex_dataset ''bad''])
          [ex_dataset ''bad'', ex_dataset ''a'', ex_dataset ''bad''] ex_state) = Inr (1, 2)"
  by code_simp

lemma ex_threshold_parse:
  "parse_json_content (ex_database_of [ex_dataset ''bad'', ex_dataset ''a'', ex_dataset ''bad''])
     ex_content = Inr [ex_dataset ''bad'', ex_dataset ''a'', ex_dataset ''bad'']"
  by (simp add: parse_json_content_def parse_body_def ex_content_def ex_database_of_def)

lemma ex_threshold_table:
  "main_table (ex_database_of [ex_dataset ''bad'', ex_dataset ''a'', ex_dataset ''bad''])
     = Some ''datasets''"
  by (simp add: ex_database_of_def ex_database_def)

lemma ex_threshold_message:
  "''Import failed: '' @ str_nat 2 @ ''/'' @ str_nat (1 + 2) @ '' datasets could not be processed''
     = ''Import failed: 2/3 datasets could not be processed''"
  by code_simp

theorem import_failure_threshold_witness:
  "parse_json_content (ex_database_of [ex_dataset ''bad'', ex_dataset ''a'', ex_dataset ''bad''])
     ex_content = Inr [ex_dataset ''bad'', ex_dataset ''a'', ex_dataset ''bad'']
   \<and> main_table (ex_database_of [ex_dataset ''bad'', ex_dataset ''a'', ex_dataset ''bad''])
       = Some ''datasets''
   \<and> fst (process_entity_collection_with_recovery
          (ex_database_of [ex_dataset ''bad'', ex_dataset ''a'', ex_dataset ''bad''])
          [ex_dataset ''bad'', ex_dataset ''a'', ex_dataset ''bad''] ex_state) = Inr (1, 2)
   \<and> fst (import_data (ex_database_of [ex_dataset ''bad'', ex_dataset ''a'', ex_dataset ''bad''])
          ex_content ex_state)
       = Inl (RuntimeError ''Import failed: 2/3 datasets could not be processed'')"
proof -
  note t = import_failure_threshold [OF ex_threshold_parse ex_threshold_table ex_threshold_run]
  have "(1::nat) + 2 < 2 * 2" by simp
  with t have "fst (import_data
      (ex_database_of [ex_dataset ''bad'', ex_dataset ''a'', ex_dataset ''bad'']) ex_content ex_state)
      = Inl (RuntimeError (''Import failed: '' @ str_nat 2 @ ''/'' @ str_nat (1 + 2)
              @ '' datasets could not be processed''))"
    by blast
  then show ?thesis
    using ex_threshold_parse ex_threshold_table ex_threshold_run
    by (simp only: ex_threshold_message simp_thms)
qed

subsection \<open>Get or create\<close>

text \<open>
  Claim C7 at a failing input. The campaigns hold one row, named \<open>abc\<close>, and the name
  asked for is \<open>a_c\<close>. No row has that name, in any case of letters, so the claim has the
  row inserted and its new identifier returned. The lookup takes the name as a pattern,
  in which the underscore stands for any character: it finds \<open>abc\<close>, returns its
  identifier and inserts nothing.
\<close>

theorem get_or_create_entity_pattern:
  "map_of (ref_tables ex_state_abc) ''campaigns''
     = Some \<lparr>id_column = ''campaign_id'',
             rows = [\<lparr>row_id = 1, row_name = ''abc'', row_accelerator_id = None\<rparr>]\<rparr>
   \<and> lower ''abc'' \<noteq> lower ''a_c''
   \<and> get_or_create_entity ex_state_abc ''campaigns'' ''a_c'' None = (Inr 1, ex_state_abc)"
  by code_simp

subsection \<open>Format rejection\<close>

lemma skipping_key_message:
  "str_contains (''Invalid data format: '' @ ''JSON does not contain '' @ [CHR 0x27] @ ''processes''
      @ [CHR 0x27] @ '' key - skipping incompatible format'') ''skipping incompatible format''"
  by code_simp

lemma skipping_list_message:
  "str_contains (''Invalid data format: '' @ [CHR 0x27] @ ''processes'' @ [CHR 0x27]
      @ '' value must be a list - skipping incompatible format'') ''skipping incompatible format''"
  by code_simp

lemma not_skipping_messages:
  "\<not> str_contains ''Invalid JSON format'' ''skipping incompatible format''"
  "\<not> str_contains ''Invalid data format: JSON root must be an object'' ''skipping incompatible format''"
  by code_simp+

lemma parse_not_json:
  "parse_json_content database NotJson = Inl (ValueError ''Invalid JSON format'')"
  by (simp add: parse_json_content_def parse_body_def)

lemma parse_not_object:
  "\<not> is_object v \<Longrightarrow>
   parse_json_content database (Json v)
     = Inl (ValueError ''Invalid data format: JSON root must be an object'')"
  by (cases v) (simp_all add: parse_json_content_def parse_body_def is_object_def str_of_error_def)

lemma parse_unrecognized:
  assumes "\<not> detect_fcc_format d"
  shows "\<exists>m. parse_json_content database (Json (JDict d)) = Inl (ValueError m)
             \<and> str_contains m ''skipping incompatible format''"
proof (cases "map_of d ''processes''")
  case None
  then have "parse_json_content database (Json (JDict d))
      = Inl (ValueError (''Invalid data format: '' @ ''JSON does not contain '' @ [CHR 0x27]
          @ ''processes'' @ [CHR 0x27] @ '' key - skipping incompatible format''))"
    by (simp add: parse_json_content_def parse_body_def str_of_error_def)
  with skipping_key_message show ?thesis by blast
next
  case (Some v)
  with assms have "parse_json_content database (Json (JDict d))
      = Inl (ValueError (''Invalid data format: '' @ [CHR 0x27] @ ''processes'' @ [CHR 0x27]
          @ '' value must be a list - skipping incompatible format''))"
    by (cases v)
       (simp_all add: parse_json_content_def parse_body_def str_of_error_def detect_fcc_format_def)
  with skipping_list_message show ?thesis by blast
qed

lemma parse_invalid:
  assumes "detect_fcc_format d" and "model_validate database d = Inl msg"
  shows "parse_json_content database (Json (JDict d))
           = Inl (ValueError (''Invalid data format: '' @ msg))"
proof -
  from assms(1) obtain ps where "map_of d ''processes'' = Some (JList ps)"
    by (auto simp add: detect_fcc_format_def split: option.splits json.splits)
  with assms(2) show ?thesis
    by (simp add: parse_json_content_def parse_body_def str_of_error_def)
qed

text \<open>
  Claim C8 as stated fails: an input that is not a recognized collection format, here a
  JSON object without the key \<open>processes\<close>, does not make the entry point raise.
\<close>

theorem import_unrecognized_counterexample:
  "\<not> recognized (Json (JDict [(''foo'', JInt 1)]))
   \<and> fst (import_data ex_database (Json (JDict [(''foo'', JInt 1)])) ex_state) = Inr ()"
  by code_simp

text \<open>
  Claim C8, amended. The entry point raises a ValueError, before any processing, when the
  input is not JSON, when its root is not an object, and when the validation of a detected
  collection fails with a text that does not hold the words \<open>skipping incompatible format\<close>.
  When the root is an object that the detection rule does not recognize (no key
  \<open>processes\<close>, or a value that is not a list), it does not raise: it logs and returns, the
  tables and every other part of the state being as before, so that nothing is processed
  and nothing is counted as a failure.
\<close>

theorem import_format_rejection:
  "import_data database NotJson s = (Inl (ValueError ''Invalid JSON format''), s)
   \<and> (\<not> is_object v \<longrightarrow>
        import_data database (Json v) s
          = (Inl (ValueError ''Invalid data format: JSON root must be an object''), s))
   \<and> (\<not> detect_fcc_format d \<longrightarrow>
        import_data database (Json (JDict d)) s = (Inr (), logger INFO s))
   \<and> (detect_fcc_format d \<and> model_validate database d = Inl msg
        \<and> \<not> str_contains (''Invalid data format: '' @ msg) ''skipping incompatible format'' \<longrightarrow>
        import_data database (Json (JDict d)) s
          = (Inl (ValueError (''Invalid data format: '' @ msg)), s))"
proof -
  have a: "import_data database NotJson s = (Inl (ValueError ''Invalid JSON format''), s)"
    using not_skipping_messages(1)
    by (simp only: import_data_def parse_not_json sum.case str_of_error_def py_error.case if_False)
  have b: "import_data database (Json v) s
          = (Inl (ValueError ''Invalid data format: JSON root must be an object''), s)"
    if "\<not> is_object v"
    using not_skipping_messages(2) parse_not_object [OF that, of database]
    by (simp only: import_data_def sum.case str_of_error_def py_error.case if_False)
  have c: "import_data database (Json (JDict d)) s = (Inr (), logger INFO s)"
    if "\<not> detect_fcc_format d"
  proof -
    from parse_unrecognized [OF that, of database] obtain m where
      "parse_json_content database (Json (JDict d)) = Inl (ValueError m)"
      "str_contains m ''skipping incompatible format''" by blast
    then show ?thesis
      by (simp only: import_data_def sum.case str_of_error_def py_error.case if_True)
  qed
  have e: "import_data database (Json (JDict d)) s
          = (Inl (ValueError (''Invalid data format: '' @ msg)), s)"
    if "detect_fcc_format d" "model_validate database d = Inl msg"
      "\<not> str_contains (''Invalid data format: '' @ msg) ''skipping incompatible format''"
    using that(3) parse_invalid [OF that(1,2)]
    by (simp only: import_data_def sum.case str_of_error_def py_error.case if_False)
  from a b c e show ?thesis by blast
qed

lemma ex_invalid_message:
  "\<not> str_contains (''Invalid data format: '' @ ''1 validation error'') ''skipping incompatible format''"
  by code_simp

theorem import_format_rejection_witness:
  "\<not> is_object (JList [])
   \<and> \<not> detect_fcc_format [(''processes'', JInt 3)]
   \<and> detect_fcc_format [(''processes'', JList [JInt 3])]
   \<and> model_validate ex_database_invalid [(''processes'', JList [JInt 3])] = Inl ''1 validation error''
   \<and> import_data ex_database (Json (JList [])) ex_state
       = (Inl (ValueError ''Invalid data format: JSON root must be an object''), ex_state)
   \<and> import_data ex_database (Json (JDict [(''processes'', JInt 3)])) ex_state
       = (Inr (), logger INFO ex_state)
   \<and> import_data ex_database_invalid (Json (JDict [(''processes'', JList [JInt 3])])) ex_state
       = (Inl (ValueError (''Invalid data format: '' @ ''1 validation error'')), ex_state)"
proof -
  have a: "\<not> is_object (JList [])" by (simp add: is_object_def)
  have b: "\<not> detect_fcc_format [(''processes'', JInt 3)]" by (simp add: detect_fcc_format_def)
  have c: "detect_fcc_format [(''processes'', JList [JInt 3])]" by (simp add: detect_fcc_format_def)
  have d: "model_validate ex_database_invalid [(''processes'', JList [JInt 3])]
             = Inl ''1 validation error''"
    by (simp add: ex_database_invalid_def)
  note t1 = import_format_rejection [of ex_database ex_state "JList []" "[(''processes'', JInt 3)]"]
  note t2 = import_format_rejection [of ex_database_invalid ex_state "JList []"
      "[(''processes'', JList [JInt 3])]" "''1 validation error''"]
  from t1 t2 a b c d ex_invalid_message show ?thesis by blast
qed

subsection \<open>Failure of reference resolution\<close>













lemma on_conflict_update_uuid:
  "on_conflict_update old ent = Inr r \<Longrightarrow> m_uuid r = m_uuid old"
  by (auto simp add: on_conflict_update_def split: sum.splits)

lemma find_uuid: "find (\<lambda>x. m_uuid x = u) xs = Some old \<Longrightarrow> m_uuid old = u"
  by (induction xs) (auto split: if_splits)









lemma ex_chunk_fcc:
  "fst (process_chunk ex_database [(0, ex_dataset_backslash)] ex_state_fcc) = (1, 0)
   \<and> map m_fks (main_rows (snd (process_chunk ex_database [(0, ex_dataset_backslash)] ex_state_fcc)))
       = [ex_null_fks]"
  by code_simp



subsection \<open>Batch pre-resolution\<close>

text \<open>
  Claim C10 at a failing input. A batch of one dataset names the accelerator \<open>fcc-ee\<close> and
  the detector \<open>IDEA\<close>, on empty reference tables. The claim has the batch pre-resolution
  create the detector with the identifier of its accelerator, as the individual path does.
  The individual path creates the detector row with accelerator 1; the batch path creates
  it with no accelerator.
\<close>

theorem preprocess_batch_detector_unscoped:
  "map_of (ref_tables (snd (create_navigation_entities ex_database (ex_dataset ''a'') ''a'' ex_state)))
      ''detectors''
     = Some \<lparr>id_column = ''detector_id'',
             rows = [\<lparr>row_id = 3, row_name = ''IDEA'', row_accelerator_id = Some 1\<rparr>]\<rparr>
   \<and> map_of (ref_tables (snd (preprocess_batch_navigation_entities ex_database [ex_dataset ''a'']
                               ex_state))) ''detectors''
     = Some \<lparr>id_column = ''detector_id'',
             rows = [\<lparr>row_id = 3, row_name = ''IDEA'', row_accelerator_id = None\<rparr>]\<rparr>
   \<and> fst (preprocess_batch_navigation_entities ex_database [ex_dataset ''a''] ex_state)
     = Inr [(''accelerator'', [(''fcc-ee'', 1)]), (''campaign'', [(''winter2023'', 2)]),
            (''detector'', [(''IDEA'', 3)])]"
  by code_simp

subsection \<open>Locked fields through imports\<close>

lemma find_replace_row:
  "find (\<lambda>x. m_uuid x = u) xs = Some old \<Longrightarrow> m_uuid r = u \<Longrightarrow>
   find (\<lambda>x. m_uuid x = u) (replace_row xs r) = Some r"
  by (induction xs) (auto split: if_splits)

lemma on_conflict_update_metadata:
  "on_conflict_update old ent = Inr r \<Longrightarrow>
   \<exists>b. sql_lock_check (m_metadata old) ''metadata'' = Inr b
       \<and> m_metadata r = (if b then m_metadata old else e_metadata ent)"
proof -
  assume a: "on_conflict_update old ent = Inr r"
  obtain x where x: "sql_lock_check (m_metadata old) ''name'' = x" by simp
  obtain y where y: "sql_lock_check (m_metadata old) ''metadata'' = y" by simp
  obtain z where z: "update_fks (m_metadata old) (e_fks ent) (m_fks old) = z" by simp
  show ?thesis
  proof (cases x)
    case (Inl e)
    with a x show ?thesis by (simp add: on_conflict_update_def)
  next
    case nlock: (Inr nb)
    show ?thesis
    proof (cases y)
      case (Inl e)
      with a x y nlock show ?thesis by (simp add: on_conflict_update_def)
    next
      case mlock: (Inr mb)
      show ?thesis
      proof (cases z)
        case (Inl e)
        with a x y z nlock mlock show ?thesis by (simp add: on_conflict_update_def)
      next
        case (Inr f)
        with a x y z nlock mlock have "r = \<lparr>m_uuid = m_uuid old,
            m_name = (if nb then m_name old else e_name ent),
            m_metadata = (if mb then m_metadata old else e_metadata ent), m_fks = f\<rparr>"
          by (simp add: on_conflict_update_def)
        with y mlock show ?thesis by simp
      qed
    qed
  qed
qed

lemma upsert_entity_stored:
  assumes "find (\<lambda>x. m_uuid x = e_uuid ent) (main_rows s) = Some old"
  shows "(fst (upsert_entity database ent s) \<noteq> Inr () \<and> snd (upsert_entity database ent s) = s)
       \<or> (fst (upsert_entity database ent s) = Inr ()
          \<and> (\<exists>b. sql_lock_check (m_metadata old) ''metadata'' = Inr b
               \<and> stored_metadata (snd (upsert_entity database ent s)) (e_uuid ent)
                    = Some (if b then m_metadata old else e_metadata ent)))"
proof (cases "on_conflict_update old ent")
  case (Inl e)
  with assms show ?thesis by (simp add: upsert_entity_def)
next
  case (Inr r)
  from assms have u: "m_uuid old = e_uuid ent" by (rule find_uuid)
  with Inr have ru: "m_uuid r = e_uuid ent" by (simp add: on_conflict_update_uuid)
  show ?thesis
  proof (cases "main_constraint database r")
    case False
    with assms Inr show ?thesis by (simp add: upsert_entity_def)
  next
    case True
    from find_replace_row [OF assms ru]
    have "stored_metadata (s\<lparr>main_rows := replace_row (main_rows s) r\<rparr>) (e_uuid ent)
            = Some (m_metadata r)"
      by (simp add: stored_metadata_def)
    with on_conflict_update_metadata [OF Inr] assms Inr True show ?thesis
      by (auto simp add: upsert_entity_def)
  qed
qed

lemma import_record_stored:
  assumes "generate_dataset_uuid (uuid5_ns database) name fks = Inr u"
    and "stored_metadata s u = Some m0"
  shows "(fst (create_main_entity database name md fks s) \<noteq> Inr ()
           \<and> import_record database name fks md s = s)
       \<or> (fst (create_main_entity database name md fks s) = Inr ()
          \<and> (\<exists>b. sql_lock_check m0 ''metadata'' = Inr b
               \<and> stored_metadata (import_record database name fks md s) u
                    = Some (if b then m0 else merged_entity_metadata (MetadataText m0) md)))"
proof -
  from assms(2) obtain old where old: "find (\<lambda>x. m_uuid x = u) (main_rows s) = Some old"
    and m0: "m_metadata old = m0"
    by (auto simp add: stored_metadata_def split: option.splits)
  let ?ent = "merge_metadata_with_locked_fields s
                \<lparr>e_name = name, e_metadata = md, e_fks = fks, e_uuid = u\<rparr>"
  have eu: "e_uuid ?ent = u" by (simp add: merge_metadata_with_locked_fields_def Let_def)
  have em: "e_metadata ?ent = merged_entity_metadata (MetadataText m0) md"
    using old m0 by (simp add: merge_metadata_with_locked_fields_def Let_def fetch_metadata_def)
  have c: "create_main_entity database name md fks s = upsert_entity database ?ent s"
    using assms(1) by (simp add: create_main_entity_def Let_def)
  from old eu have "find (\<lambda>x. m_uuid x = e_uuid ?ent) (main_rows s) = Some old" by simp
  from upsert_entity_stored [OF this, of database] show ?thesis
    unfolding import_record_def c eu em m0 by blast
qed

lemma locked_inv_merged:
  assumes "locked_inv field v0 m" and "distinct (map fst md)" and "keeps_lock field md"
    and "\<not> is_lock_control_key field" and "strip_empty v0 = v0"
  shows "locked_inv field v0 (merged_entity_metadata (MetadataText m) md)"
proof -
  from assms(1) have d: "distinct (map fst m)" and h: "holds_true m (control_key field)"
    and v: "map_of m field = v0" by (simp_all add: locked_inv_def)
  note l = map_of_merged_text [OF d assms(2)]
  have f: "map_of (merged_entity_metadata (MetadataText m) md) field = v0"
    using l [of field] assms(4,5) h v by (simp add: merged_value_def)
  have "holds_true (merged_entity_metadata (MetadataText m) md) (control_key field)"
  proof (cases "map_of md (control_key field)")
    case None
    then have "control_key field \<notin> set (map fst md)"
      by (simp add: map_of_eq_None_iff)
    then have "merged_value m md (control_key field) = map_of m (control_key field)"
      by (simp add: merged_value_def)
    moreover from h obtain w where w: "map_of m (control_key field) = Some w" "py_truthy w"
      by (auto simp add: holds_true_def split: option.splits)
    ultimately show ?thesis
      using l [of "control_key field"] truthy_not_empty [OF w(2)]
      by (simp add: holds_true_def strip_empty_def)
  next
    case (Some w)
    with assms(3) have t: "py_truthy w" by (simp add: keeps_lock_def)
    from Some have "control_key field \<in> set (map fst md)"
      by (metis map_of_eq_None_iff option.distinct(1) set_map)
    with Some have "merged_value m md (control_key field) = Some w"
      by (simp add: merged_value_def control_key_is_lock_control_key)
    with t show ?thesis
      using l [of "control_key field"] truthy_not_empty [OF t]
      by (simp add: holds_true_def strip_empty_def)
  qed
  with f l show ?thesis by (simp add: locked_inv_def)
qed

lemma locked_inv_import_records:
  assumes "generate_dataset_uuid (uuid5_ns database) name fks = Inr u"
    and "\<not> is_lock_control_key field" and "strip_empty v0 = v0"
  shows "\<forall>md \<in> set mds. distinct (map fst md) \<and> keeps_lock field md \<Longrightarrow>
         \<exists>m. stored_metadata s u = Some m \<and> locked_inv field v0 m \<Longrightarrow>
         \<exists>m. stored_metadata (import_records database name fks mds s) u = Some m
             \<and> locked_inv field v0 m"
proof (induction mds arbitrary: s)
  case Nil
  then show ?case by (simp add: import_records_def)
next
  case (Cons md mds)
  from Cons.prems(2) obtain m where m: "stored_metadata s u = Some m" "locked_inv field v0 m"
    by blast
  from Cons.prems(1) have md: "distinct (map fst md)" "keeps_lock field md" by simp_all
  have "\<exists>m'. stored_metadata (import_record database name fks md s) u = Some m'
            \<and> locked_inv field v0 m'"
    using import_record_stored [OF assms(1) m(1), of md] m
      locked_inv_merged [OF m(2) md assms(2,3)]
    by (auto split: if_splits)
  moreover from Cons.prems(1) have "\<forall>md \<in> set mds. distinct (map fst md) \<and> keeps_lock field md"
    by simp
  ultimately have "\<exists>m. stored_metadata
      (import_records database name fks mds (import_record database name fks md s)) u = Some m
      \<and> locked_inv field v0 m"
    by (rule Cons.IH [rotated])
  then show ?case by (simp add: import_records_def)
qed

lemma unlocked_after_merge:
  assumes "distinct (map fst m)" and "distinct (map fst md)" and "\<not> keeps_lock field md"
  shows "\<not> holds_true (merged_entity_metadata (MetadataText m) md) (control_key field)"
proof -
  from assms(3) obtain v where v: "map_of md (control_key field) = Some v" "\<not> py_truthy v"
    by (auto simp add: keeps_lock_def split: option.splits)
  from v(1) have "control_key field \<in> set (map fst md)"
    by (metis map_of_eq_None_iff option.distinct(1) set_map)
  with v have "merged_value m md (control_key field) = Some v"
    by (simp add: merged_value_def control_key_is_lock_control_key)
  with v(2) show ?thesis
    using map_of_merged_text [OF assms(1,2), of "control_key field"]
    by (simp add: holds_true_def strip_empty_def)
qed

lemma applied_after_unlock:
  assumes "distinct (map fst m)" and "distinct (map fst md)"
    and "\<not> holds_true m (control_key field)" and "map_of md field = Some w"
  shows "map_of (merged_entity_metadata (MetadataText m) md) field = strip_empty (Some w)"
proof -
  from assms(4) have "field \<in> set (map fst md)"
    by (metis map_of_eq_None_iff option.distinct(1) set_map)
  with assms(3,4) have "merged_value m md field = Some w"
    by (simp add: merged_value_def)
  then show ?thesis
    using map_of_merged_text [OF assms(1,2), of field] by simp
qed

lemma import_record_replaces:
  assumes "generate_dataset_uuid (uuid5_ns database) name fks = Inr u"
    and "stored_metadata s u = Some m0"
    and "fst (create_main_entity database name md fks s) = Inr ()"
    and "sql_lock_check m0 ''metadata'' = Inr False"
  shows "stored_metadata (import_record database name fks md s) u
           = Some (merged_entity_metadata (MetadataText m0) md)"
  using import_record_stored [OF assms(1,2), of md] assms(3,4) by auto

text \<open>
  Claim C3 as stated fails: the stored record locks its status and also its metadata
  column. An import sets the lock-control key of the status to false and a second one
  brings the status \<open>B\<close>; both return, and the stored metadata is what it was, the status
  \<open>A\<close> and its lock included: the upsert keeps the whole metadata column.
\<close>

theorem lock_unset_counterexample:
  "stored_metadata (ex_state_stored ex_frozen_metadata) ''x,0,0,0,0,0'' = Some ex_frozen_metadata
   \<and> fst (create_main_entity ex_database ''x'' [(''__status__lock__'', JBool False)] ex_null_fks
            (ex_state_stored ex_frozen_metadata)) = Inr ()
   \<and> fst (create_main_entity ex_database ''x'' [(''status'', JStr ''B'')] ex_null_fks
            (import_record ex_database ''x'' ex_null_fks [(''__status__lock__'', JBool False)]
               (ex_state_stored ex_frozen_metadata))) = Inr ()
   \<and> stored_metadata
        (import_records ex_database ''x'' ex_null_fks
           [[(''__status__lock__'', JBool False)], [(''status'', JStr ''B'')]]
           (ex_state_stored ex_frozen_metadata)) ''x,0,0,0,0,0''
       = Some ex_frozen_metadata
   \<and> map_of ex_frozen_metadata ''status'' = Some (JStr ''A'')"
  by code_simp

text \<open>
  Claim C3, amended. Let a stored record hold a true value under \<open>__<field>__lock__\<close>.
  Every sequence of imports of the same identity none of which sets that key to an
  unlocked value leaves the stored value of the field as it is, and the field locked.
  An import that sets the key to an unlocked value unlocks the field when its metadata is
  stored, that is when the upsert returns and the stored metadata does not lock the
  metadata column (\<open>__metadata__lock__\<close>); the value of the next import that is stored is
  then applied to the field (and the field removed when that value is empty).
\<close>

theorem lock_monotonicity:
  assumes "generate_dataset_uuid (uuid5_ns database) name fks = Inr u"
    and "stored_metadata s u = Some m0"
    and "distinct (map fst m0)"
    and "holds_true m0 (control_key field)"
    and "\<not> is_lock_control_key field"
    and "strip_empty (map_of m0 field) = map_of m0 field"
  shows "((\<forall>md \<in> set mds. distinct (map fst md) \<and> keeps_lock field md) \<longrightarrow>
          (\<exists>m. stored_metadata (import_records database name fks mds s) u = Some m
             \<and> map_of m field = map_of m0 field \<and> holds_true m (control_key field)))
       \<and> (distinct (map fst unlock) \<and> \<not> keeps_lock field unlock
          \<and> distinct (map fst md) \<and> map_of md field = Some w
          \<and> fst (create_main_entity database name unlock fks s) = Inr ()
          \<and> sql_lock_check m0 ''metadata'' = Inr False
          \<and> fst (create_main_entity database name md fks
                    (import_record database name fks unlock s)) = Inr ()
          \<and> sql_lock_check (merged_entity_metadata (MetadataText m0) unlock) ''metadata''
              = Inr False \<longrightarrow>
          (\<exists>m. stored_metadata (import_records database name fks [unlock, md] s) u = Some m
             \<and> map_of m field = strip_empty (Some w)))"
proof -
  have inv: "\<exists>m. stored_metadata s u = Some m \<and> locked_inv field (map_of m0 field) m"
    using assms(2,3,4) by (simp add: locked_inv_def)
  have a: "\<exists>m. stored_metadata (import_records database name fks mds s) u = Some m
             \<and> map_of m field = map_of m0 field \<and> holds_true m (control_key field)"
    if "\<forall>md \<in> set mds. distinct (map fst md) \<and> keeps_lock field md"
    using locked_inv_import_records [OF assms(1,5,6) that inv]
    by (auto simp add: locked_inv_def)
  have b: "\<exists>m. stored_metadata (import_records database name fks [unlock, md] s) u = Some m
             \<and> map_of m field = strip_empty (Some w)"
    if h: "distinct (map fst unlock)" "\<not> keeps_lock field unlock"
      "distinct (map fst md)" "map_of md field = Some w"
      "fst (create_main_entity database name unlock fks s) = Inr ()"
      "sql_lock_check m0 ''metadata'' = Inr False"
      "fst (create_main_entity database name md fks
              (import_record database name fks unlock s)) = Inr ()"
      "sql_lock_check (merged_entity_metadata (MetadataText m0) unlock) ''metadata'' = Inr False"
  proof -
    let ?m1 = "merged_entity_metadata (MetadataText m0) unlock"
    let ?s1 = "import_record database name fks unlock s"
    have s1: "stored_metadata ?s1 u = Some ?m1"
      using assms(1,2) h(5,6) by (rule import_record_replaces)
    have d1: "distinct (map fst ?m1)"
      using map_of_merged_text [OF assms(3) h(1)] by simp
    have u1: "\<not> holds_true ?m1 (control_key field)"
      using assms(3) h(1,2) by (rule unlocked_after_merge)
    have "stored_metadata (import_record database name fks md ?s1) u
            = Some (merged_entity_metadata (MetadataText ?m1) md)"
      using assms(1) s1 h(7,8) by (rule import_record_replaces)
    moreover have "map_of (merged_entity_metadata (MetadataText ?m1) md) field
                     = strip_empty (Some w)"
      using d1 h(3) u1 h(4) by (rule applied_after_unlock)
    ultimately show ?thesis
      by (simp add: import_records_def)
  qed
  from a b show ?thesis by blast
qed

lemma ex_locked_facts:
  "generate_dataset_uuid (uuid5_ns ex_database) ''x'' ex_null_fks = Inr ''x,0,0,0,0,0''"
  "stored_metadata (ex_state_stored ex_locked_metadata) ''x,0,0,0,0,0'' = Some ex_locked_metadata"
  "distinct (map fst ex_locked_metadata)"
  "holds_true ex_locked_metadata (control_key ''status'')"
  "\<not> is_lock_control_key ''status''"
  "strip_empty (map_of ex_locked_metadata ''status'') = map_of ex_locked_metadata ''status''"
  by code_simp+

lemma ex_locked_imports:
  "\<forall>md \<in> set [[(''status'', JStr ''B'')]]. distinct (map fst md) \<and> keeps_lock ''status'' md"
  by (simp add: keeps_lock_def control_key_def)

lemma ex_unlock_facts:
  "distinct (map fst [(''__status__lock__'', JBool False)])
   \<and> \<not> keeps_lock ''status'' [(''__status__lock__'', JBool False)]
   \<and> distinct (map fst [(''status'', JStr ''B'')])
   \<and> map_of [(''status'', JStr ''B'')] ''status'' = Some (JStr ''B'')
   \<and> fst (create_main_entity ex_database ''x'' [(''__status__lock__'', JBool False)] ex_null_fks
            (ex_state_stored ex_locked_metadata)) = Inr ()
   \<and> sql_lock_check ex_locked_metadata ''metadata'' = Inr False
   \<and> fst (create_main_entity ex_database ''x'' [(''status'', JStr ''B'')] ex_null_fks
            (import_record ex_database ''x'' ex_null_fks [(''__status__lock__'', JBool False)]
               (ex_state_stored ex_locked_metadata))) = Inr ()
   \<and> sql_lock_check (merged_entity_metadata (MetadataText ex_locked_metadata)
                        [(''__status__lock__'', JBool False)]) ''metadata'' = Inr False"
  by code_simp

lemma ex_locked_values:
  "map_of ex_locked_metadata ''status'' = Some (JStr ''A'')"
  "strip_empty (Some (JStr ''B'')) = Some (JStr ''B'')"
  by code_simp+

theorem lock_monotonicity_witness:
  "stored_metadata (ex_state_stored ex_locked_metadata) ''x,0,0,0,0,0'' = Some ex_locked_metadata
   \<and> holds_true ex_locked_metadata (control_key ''status'')
   \<and> map_of ex_locked_metadata ''status'' = Some (JStr ''A'')
   \<and> (\<exists>m. stored_metadata
              (import_records ex_database ''x'' ex_null_fks [[(''status'', JStr ''B'')]]
                 (ex_state_stored ex_locked_metadata)) ''x,0,0,0,0,0'' = Some m
          \<and> map_of m ''status'' = Some (JStr ''A''))
   \<and> (\<exists>m. stored_metadata
              (import_records ex_database ''x'' ex_null_fks
                 [[(''__status__lock__'', JBool False)], [(''status'', JStr ''B'')]]
                 (ex_state_stored ex_locked_metadata)) ''x,0,0,0,0,0'' = Some m
          \<and> map_of m ''status'' = Some (JStr ''B''))"
proof -
  note t = lock_monotonicity [OF ex_locked_facts,
      where mds = "[[(''status'', JStr ''B'')]]" and unlock = "[(''__status__lock__'', JBool False)]"
        and md = "[(''status'', JStr ''B'')]" and w = "JStr ''B''"]
  note kept = t [THEN conjunct1, THEN mp, OF ex_locked_imports]
  note applied = t [THEN conjunct2, THEN mp, OF ex_unlock_facts]
  from kept have k: "\<exists>m. stored_metadata
              (import_records ex_database ''x'' ex_null_fks [[(''status'', JStr ''B'')]]
                 (ex_state_stored ex_locked_metadata)) ''x,0,0,0,0,0'' = Some m
          \<and> map_of m ''status'' = Some (JStr ''A'')"
    by (simp only: ex_locked_values) (elim exE conjE, rule exI, rule conjI)
  from applied have a: "\<exists>m. stored_metadata
              (import_records ex_database ''x'' ex_null_fks
                 [[(''__status__lock__'', JBool False)], [(''status'', JStr ''B'')]]
                 (ex_state_stored ex_locked_metadata)) ''x,0,0,0,0,0'' = Some m
          \<and> map_of m ''status'' = Some (JStr ''B'')"
    by (simp only: ex_locked_values)
  show ?thesis
    using ex_locked_facts(2,4) ex_locked_values(1) k a by (intro conjI)
qed

subsection \<open>Re-import\<close>

lemma find_present:
  "u \<in> m_uuid ` set xs \<Longrightarrow> \<exists>old. find (\<lambda>x. m_uuid x = u) xs = Some old"
  by (induction xs) auto

lemma find_absent:
  "u \<notin> m_uuid ` set xs \<Longrightarrow> find (\<lambda>x. m_uuid x = u) xs = None"
  by (induction xs) auto

lemma replace_row_length: "length (replace_row xs r) = length xs"
  by (induction xs) auto

lemma replace_row_uuids:
  "m_uuid ` set (replace_row xs r) = m_uuid ` set xs"
  by (induction xs) auto

lemma upsert_entity_present:
  assumes "e_uuid ent \<in> stored_uuids s"
  shows "length (main_rows (snd (upsert_entity database ent s))) = length (main_rows s)
       \<and> stored_uuids (snd (upsert_entity database ent s)) = stored_uuids s"
proof -
  from assms obtain old where old: "find (\<lambda>x. m_uuid x = e_uuid ent) (main_rows s) = Some old"
    using find_present [of "e_uuid ent" "main_rows s"] by (auto simp add: stored_uuids_def)
  show ?thesis
  proof (cases "on_conflict_update old ent")
    case (Inl e)
    with old show ?thesis by (simp add: upsert_entity_def)
  next
    case (Inr r)
    with old show ?thesis
      by (simp add: upsert_entity_def stored_uuids_def replace_row_length replace_row_uuids)
  qed
qed

lemma upsert_entity_grows:
  "stored_uuids s \<subseteq> stored_uuids (snd (upsert_entity database ent s))
   \<and> (fst (upsert_entity database ent s) = Inr () \<longrightarrow>
        e_uuid ent \<in> stored_uuids (snd (upsert_entity database ent s)))
   \<and> (fst (upsert_entity database ent s) \<noteq> Inr () \<longrightarrow>
        main_rows (snd (upsert_entity database ent s)) = main_rows s)"
proof (cases "e_uuid ent \<in> stored_uuids s")
  case True
  from upsert_entity_present [OF True, of database] True
  have a: "stored_uuids s \<subseteq> stored_uuids (snd (upsert_entity database ent s))"
    and b: "e_uuid ent \<in> stored_uuids (snd (upsert_entity database ent s))"
    by simp_all
  from True obtain old where old: "find (\<lambda>x. m_uuid x = e_uuid ent) (main_rows s) = Some old"
    using find_present [of "e_uuid ent" "main_rows s"] by (auto simp add: stored_uuids_def)
  have "fst (upsert_entity database ent s) \<noteq> Inr () \<longrightarrow>
        main_rows (snd (upsert_entity database ent s)) = main_rows s"
    using old by (cases "on_conflict_update old ent") (simp_all add: upsert_entity_def)
  with a b show ?thesis by simp
next
  case False
  then have "find (\<lambda>x. m_uuid x = e_uuid ent) (main_rows s) = None"
    using find_absent [of "e_uuid ent" "main_rows s"] by (simp add: stored_uuids_def)
  then show ?thesis
    by (auto simp add: upsert_entity_def stored_uuids_def Let_def)
qed

lemma create_main_entity_step:
  assumes "generate_dataset_uuid (uuid5_ns database) name fks = Inr u"
  shows "stored_uuids s
           \<subseteq> stored_uuids (snd (create_main_entity_with_conflict_resolution database name md fks s))
       \<and> (fst (create_main_entity_with_conflict_resolution database name md fks s) = Inr () \<longrightarrow>
            u \<in> stored_uuids (snd (create_main_entity_with_conflict_resolution database name md fks s)))
       \<and> (fst (create_main_entity_with_conflict_resolution database name md fks s) \<noteq> Inr () \<longrightarrow>
            main_rows (snd (create_main_entity_with_conflict_resolution database name md fks s))
              = main_rows s)
       \<and> (u \<in> stored_uuids s \<longrightarrow>
            length (main_rows (snd (create_main_entity_with_conflict_resolution database name md fks s)))
              = length (main_rows s)
            \<and> stored_uuids (snd (create_main_entity_with_conflict_resolution database name md fks s))
              = stored_uuids s)"
proof -
  let ?ent = "merge_metadata_with_locked_fields s
                \<lparr>e_name = name, e_metadata = md, e_fks = fks, e_uuid = u\<rparr>"
  have eu: "e_uuid ?ent = u" by (simp add: merge_metadata_with_locked_fields_def Let_def)
  have c: "create_main_entity database name md fks s = upsert_entity database ?ent s"
    using assms by (simp add: create_main_entity_def Let_def)
  obtain r s' where r: "upsert_entity database ?ent s = (r, s')"
    by (cases "upsert_entity database ?ent s")
  have w: "fst (create_main_entity_with_conflict_resolution database name md fks s) = r"
    "main_rows (snd (create_main_entity_with_conflict_resolution database name md fks s))
       = main_rows s'"
    "stored_uuids (snd (create_main_entity_with_conflict_resolution database name md fks s))
       = stored_uuids s'"
    using c r
    by (cases r; simp add: create_main_entity_with_conflict_resolution_def logger_def
          stored_uuids_def)+
  from upsert_entity_grows [of s database ?ent] upsert_entity_present [of ?ent s database] r eu
  show ?thesis
    unfolding w by auto
qed

lemma upsert_entity_failure:
  "fst (upsert_entity database ent s) \<noteq> Inr () \<Longrightarrow> snd (upsert_entity database ent s) = s"
  by (auto simp add: upsert_entity_def Let_def split: option.splits sum.splits if_splits)

lemma create_main_entity_failure:
  "fst (create_main_entity database name md fks s) \<noteq> Inr () \<Longrightarrow>
   snd (create_main_entity database name md fks s) = s"
  by (cases "generate_dataset_uuid (uuid5_ns database) name fks")
     (simp_all add: create_main_entity_def Let_def upsert_entity_failure)

lemma create_main_entity_wrapper:
  "main_rows (snd (create_main_entity_with_conflict_resolution database name md fks s))
     = main_rows (snd (create_main_entity database name md fks s))
   \<and> fst (create_main_entity_with_conflict_resolution database name md fks s)
     = fst (create_main_entity database name md fks s)"
proof (cases "create_main_entity database name md fks s")
  case (Pair r s')
  then show ?thesis
    by (cases r) (simp_all add: create_main_entity_with_conflict_resolution_def logger_def)
qed

lemma import_record_twice:
  "length (main_rows (import_record database name fks md (import_record database name fks md s)))
     = length (main_rows (import_record database name fks md s))"
proof (cases "fst (create_main_entity database name md fks s) = Inr ()")
  case False
  then have "import_record database name fks md s = s"
    by (simp add: import_record_def create_main_entity_failure)
  then show ?thesis by simp
next
  case True
  then obtain u where u: "generate_dataset_uuid (uuid5_ns database) name fks = Inr u"
    by (cases "generate_dataset_uuid (uuid5_ns database) name fks")
       (simp_all add: create_main_entity_def)
  let ?s1 = "import_record database name fks md s"
  from create_main_entity_step [OF u, where s = s and md = md] True
  have "u \<in> stored_uuids ?s1"
    using create_main_entity_wrapper [of database name md fks s]
    by (simp add: import_record_def stored_uuids_def)
  with create_main_entity_step [OF u, where s = "?s1" and md = md]
  have "length (main_rows (snd (create_main_entity_with_conflict_resolution database name md fks ?s1)))
          = length (main_rows ?s1)" by simp
  then show ?thesis
    using create_main_entity_wrapper [of database name md fks ?s1]
    by (simp add: import_record_def)
qed

lemma generate_dataset_name_named:
  "named d \<Longrightarrow> generate_dataset_name database d idx s = (the (process_name d), s)"
  by (auto simp add: named_def generate_dataset_name_def split: option.splits)

lemma process_single_entity_named:
  "named d \<Longrightarrow>
   process_single_entity database d idx c s =
     create_main_entity_with_conflict_resolution database (the (process_name d))
       (get_all_metadata d) (get_foreign_key_ids_from_cache d c) (logger INFO s)"
  by (simp add: process_single_entity_def generate_dataset_name_named Let_def)

lemma stored_uuids_logger [simp]: "stored_uuids (logger lvl s) = stored_uuids s"
  by (simp add: stored_uuids_def logger_def)

lemma main_rows_logger [simp]: "main_rows (logger lvl s) = main_rows s"
  by (simp add: logger_def)

lemma process_single_entity_step:
  assumes "named d"
  shows "stored_uuids s \<subseteq> stored_uuids (snd (process_single_entity database d idx c s))
       \<and> (fst (process_single_entity database d idx c s) = Inr () \<longrightarrow>
            (\<exists>u. record_uuid database c d = Inr u
                \<and> u \<in> stored_uuids (snd (process_single_entity database d idx c s))))
       \<and> ((\<exists>u. record_uuid database c d = Inr u \<and> u \<in> stored_uuids s) \<longrightarrow>
            length (main_rows (snd (process_single_entity database d idx c s)))
              = length (main_rows s)
            \<and> stored_uuids (snd (process_single_entity database d idx c s)) = stored_uuids s)"
proof (cases "record_uuid database c d")
  case (Inl e)
  then have "create_main_entity database (the (process_name d)) (get_all_metadata d)
               (get_foreign_key_ids_from_cache d c) (logger INFO s) = (Inl e, logger INFO s)"
    by (simp add: record_uuid_def create_main_entity_def)
  then show ?thesis
    using assms Inl
    by (simp add: process_single_entity_named create_main_entity_with_conflict_resolution_def)
next
  case (Inr u)
  then have g: "generate_dataset_uuid (uuid5_ns database) (the (process_name d))
                  (get_foreign_key_ids_from_cache d c) = Inr u"
    by (simp add: record_uuid_def)
  from create_main_entity_step [OF g, where s = "logger INFO s" and md = "get_all_metadata d"] Inr
  show ?thesis
    by (simp add: process_single_entity_named [OF assms])
qed

lemma process_entities_grows:
  "\<forall>x \<in> set batch. named (snd x) \<Longrightarrow>
   stored_uuids s \<subseteq> stored_uuids (snd (process_entities database batch c s))"
proof (induction batch arbitrary: s)
  case Nil
  then show ?case by simp
next
  case (Cons x batch)
  obtain idx d where x: "x = (idx, d)" by (cases x)
  with Cons.prems have n: "named d" and ns: "\<forall>x \<in> set batch. named (snd x)" by simp_all
  obtain r s1 where p: "process_single_entity database d idx c s = (r, s1)"
    by (cases "process_single_entity database d idx c s")
  from process_single_entity_step [OF n, of s database idx c] p
  have g: "stored_uuids s \<subseteq> stored_uuids s1" by simp
  show ?case
  proof (cases r)
    case (Inl e)
    with x p g show ?thesis by simp
  next
    case (Inr v)
    with x p g Cons.IH [OF ns, of s1] show ?thesis by auto
  qed
qed

lemma process_entities_first:
  "\<forall>x \<in> set batch. named (snd x) \<Longrightarrow>
   fst (process_entities database batch c s) = Inr () \<Longrightarrow>
   \<forall>x \<in> set batch. \<exists>u. record_uuid database c (snd x) = Inr u
      \<and> u \<in> stored_uuids (snd (process_entities database batch c s))"
proof (induction batch arbitrary: s)
  case Nil
  then show ?case by simp
next
  case (Cons x batch)
  obtain idx d where x: "x = (idx, d)" by (cases x)
  with Cons.prems have n: "named d" and ns: "\<forall>x \<in> set batch. named (snd x)" by simp_all
  obtain r s1 where p: "process_single_entity database d idx c s = (r, s1)"
    by (cases "process_single_entity database d idx c s")
  show ?case
  proof (cases r)
    case (Inl e)
    with x p Cons.prems(2) show ?thesis by simp
  next
    case (Inr v)
    with x p Cons.prems(2) have f: "fst (process_entities database batch c s1) = Inr ()"
      and e: "process_entities database (x # batch) c s = process_entities database batch c s1"
      by simp_all
    from process_single_entity_step [OF n, of s database idx c] p Inr
    obtain u where u: "record_uuid database c d = Inr u" "u \<in> stored_uuids s1" by auto
    from process_entities_grows [OF ns, of s1 database c] u(2)
    have "u \<in> stored_uuids (snd (process_entities database batch c s1))" by auto
    with u(1) x e Cons.IH [OF ns f] show ?thesis by simp
  qed
qed

lemma process_entities_second:
  "\<forall>x \<in> set batch. named (snd x) \<Longrightarrow>
   \<forall>x \<in> set batch. \<exists>u. record_uuid database c (snd x) = Inr u \<and> u \<in> stored_uuids s \<Longrightarrow>
   length (main_rows (snd (process_entities database batch c s))) = length (main_rows s)
   \<and> stored_uuids (snd (process_entities database batch c s)) = stored_uuids s"
proof (induction batch arbitrary: s)
  case Nil
  then show ?case by simp
next
  case (Cons x batch)
  obtain idx d where x: "x = (idx, d)" by (cases x)
  with Cons.prems have n: "named d" and ns: "\<forall>x \<in> set batch. named (snd x)" by simp_all
  obtain r s1 where p: "process_single_entity database d idx c s = (r, s1)"
    by (cases "process_single_entity database d idx c s")
  from Cons.prems(2) x have "\<exists>u. record_uuid database c d = Inr u \<and> u \<in> stored_uuids s"
    by simp
  with process_single_entity_step [OF n, of s database idx c] p
  have k: "length (main_rows s1) = length (main_rows s)" "stored_uuids s1 = stored_uuids s"
    by simp_all
  show ?case
  proof (cases r)
    case (Inl e)
    with x p k show ?thesis by simp
  next
    case (Inr v)
    from Cons.prems(2) k(2)
    have "\<forall>x \<in> set batch. \<exists>u. record_uuid database c (snd x) = Inr u \<and> u \<in> stored_uuids s1"
      by simp
    from Cons.IH [OF ns this] x p Inr k show ?thesis by simp
  qed
qed

text \<open>
  Claim C6 as stated fails: a collection of one dataset without a process name, imported
  into the example installation, leaves one row, and imported again leaves two. The name
  of such a dataset is drawn from the clock and a random identifier at each import, so
  the second import derives another identifier. With a process name, the second import
  leaves the one row.
\<close>

theorem reimport_unnamed_counterexample:
  "length (main_rows (snd (process_entity_collection_with_recovery ex_database
      [ex_dataset_unnamed] ex_state))) = 1
   \<and> length (main_rows (snd (process_entity_collection_with_recovery ex_database
        [ex_dataset_unnamed]
        (snd (process_entity_collection_with_recovery ex_database [ex_dataset_unnamed]
                ex_state))))) = 2
   \<and> length (main_rows (snd (process_entity_collection_with_recovery ex_database
        [ex_dataset ''a'']
        (snd (process_entity_collection_with_recovery ex_database [ex_dataset ''a'']
                ex_state))))) = 1"
  by code_simp

text \<open>
  Claim C6, amended. For a dataset that has a process name, the dataset name is that name,
  whatever the state, and the identifier is a function of the name and the resolved
  foreign keys. Importing a record again with the same name, resolved foreign keys and
  metadata hits the same identifier and upserts: the main table has as many rows after the
  second import as after the first. Likewise for a batch of named datasets that was
  processed, when it is processed again with the same resolved references.
\<close>

theorem reimport_same_identifier:
  "(named d \<longrightarrow> generate_dataset_name database d idx s = (the (process_name d), s))
   \<and> length (main_rows (import_record database name fks md
                (import_record database name fks md s)))
       = length (main_rows (import_record database name fks md s))
   \<and> ((\<forall>x \<in> set batch. named (snd x)) \<and> fst (process_entities database batch c s) = Inr () \<longrightarrow>
        length (main_rows (snd (process_entities database batch c
                  (snd (process_entities database batch c s)))))
          = length (main_rows (snd (process_entities database batch c s))))"
proof -
  have "length (main_rows (snd (process_entities database batch c
                  (snd (process_entities database batch c s)))))
          = length (main_rows (snd (process_entities database batch c s)))"
    if n: "\<forall>x \<in> set batch. named (snd x)" and f: "fst (process_entities database batch c s) = Inr ()"
    using process_entities_second [OF n process_entities_first [OF n f]] by simp
  then show ?thesis
    using generate_dataset_name_named [of d database idx s]
      import_record_twice [of database name fks md s]
    by blast
qed

lemma ex_named_batch:
  "\<forall>x \<in> set [(0, ex_dataset ''a''), (1, ex_dataset ''b'')]. named (snd x)"
  "named (ex_dataset ''a'')"
  "named (ex_dataset ''b'')"
  by (simp_all add: named_def ex_dataset_def)

lemma ex_named_run:
  "fst (process_entities ex_database [(0, ex_dataset ''a''), (1, ex_dataset ''b'')] [] ex_state)
     = Inr ()"
  by code_simp

lemma ex_named_rows:
  "length (main_rows (snd (process_entities ex_database
      [(0, ex_dataset ''a''), (1, ex_dataset ''b'')] [] ex_state))) = 2"
  by code_simp

theorem reimport_same_identifier_witness:
  "named (ex_dataset ''a'') \<and> named (ex_dataset ''b'')
   \<and> fst (process_entities ex_database [(0, ex_dataset ''a''), (1, ex_dataset ''b'')] [] ex_state)
       = Inr ()
   \<and> generate_dataset_name ex_database (ex_dataset ''a'') 0 ex_state
       = (the (process_name (ex_dataset ''a'')), ex_state)
   \<and> length (main_rows (snd (process_entities ex_database
         [(0, ex_dataset ''a''), (1, ex_dataset ''b'')] []
         (snd (process_entities ex_database [(0, ex_dataset ''a''), (1, ex_dataset ''b'')] []
                 ex_state))))) = 2"
proof -
  note t = reimport_same_identifier [where database = ex_database and d = "ex_dataset ''a''"
      and idx = 0 and s = ex_state and batch = "[(0, ex_dataset ''a''), (1, ex_dataset ''b'')]"
      and c = "[]" and name = "''a''" and fks = ex_null_fks and md = "[]"]
  note nm = t [THEN conjunct1, THEN mp, OF ex_named_batch(2)]
  note again = t [THEN conjunct2, THEN conjunct2, THEN mp,
      OF conjI [OF ex_named_batch(1) ex_named_run]]
  from again have "length (main_rows (snd (process_entities ex_database
         [(0, ex_dataset ''a''), (1, ex_dataset ''b'')] []
         (snd (process_entities ex_database [(0, ex_dataset ''a''), (1, ex_dataset ''b'')] []
                 ex_state))))) = 2"
    by (simp only: ex_named_rows)
  with ex_named_batch(2,3) ex_named_run nm show ?thesis
    by (intro conjI)
qed

end
